theory Spec2Isabelle
  imports Main "HOL-Library.Multiset"
begin

section \<open>Characters and strings\<close>

text \<open>
  A Python \<open>str\<close> is modelled as a \<^typ>\<open>string\<close> whose characters are the code points
  below 256. The three character tables the scripts rely on are those of Python 3 on that
  range: \<open>str.isspace\<close> (used by \<open>str.strip\<close> and \<open>str.split\<close>), \<open>str.lower\<close>, and
  the class \<open>\w\<close> of the \<open>re\<close> module. Code points from 256 on are outside the model.
\<close>

definition ord :: "char \<Rightarrow> nat" where
  "ord c = of_char c"

definition isspace :: "char \<Rightarrow> bool" where
  "isspace c = ((9 \<le> ord c \<and> ord c \<le> 13) \<or> (28 \<le> ord c \<and> ord c \<le> 32)
                 \<or> ord c = 133 \<or> ord c = 160)"

definition isupper :: "char \<Rightarrow> bool" where
  "isupper c = ((65 \<le> ord c \<and> ord c \<le> 90) \<or> (192 \<le> ord c \<and> ord c \<le> 222 \<and> ord c \<noteq> 215))"

definition lower_char :: "char \<Rightarrow> char" where
  "lower_char c = (if isupper c then char_of (ord c + 32) else c)"

definition lower :: "string \<Rightarrow> string" where
  "lower s = map lower_char s"

definition strip :: "string \<Rightarrow> string" where
  "strip s = rev (dropWhile isspace (rev (dropWhile isspace s)))"

text \<open>The character classes of the two regular expressions of \<open>normalize_columns\<close>.\<close>

definition is_separator :: "char \<Rightarrow> bool" where
  \<comment> \<open>the class \<open>[ \/\-#]\<close>\<close>
  "is_separator c = (c = CHR '' '' \<or> c = CHR ''/'' \<or> c = CHR ''-'' \<or> c = CHR 0x23)"

definition is_digit :: "char \<Rightarrow> bool" where
  "is_digit c = (48 \<le> ord c \<and> ord c \<le> 57)"

definition is_ascii_lower :: "char \<Rightarrow> bool" where
  "is_ascii_lower c = (97 \<le> ord c \<and> ord c \<le> 122)"

definition is_ascii_upper :: "char \<Rightarrow> bool" where
  "is_ascii_upper c = (65 \<le> ord c \<and> ord c \<le> 90)"

definition is_name_char :: "char \<Rightarrow> bool" where
  \<comment> \<open>the class \<open>[0-9a-zA-Z_]\<close>\<close>
  "is_name_char c = (is_digit c \<or> is_ascii_lower c \<or> is_ascii_upper c \<or> c = CHR ''_'')"

text \<open>
  \<open>re.sub\<close> with a pattern that is one character class: every character of the class is
  a match, and each match is replaced by the replacement string.
\<close>

definition re_sub_class :: "(char \<Rightarrow> bool) \<Rightarrow> string \<Rightarrow> string \<Rightarrow> string" where
  "re_sub_class cls repl s = concat (map (\<lambda>c. if cls c then repl else [c]) s)"

section \<open>Column normalizer\<close>

text \<open>
  The chain of \<open>normalize_columns\<close> (and of \<open>load_df\<close>) on one header:
  \<open>.str.strip().str.lower().str.replace(r"[ \/\-#]", "_").str.replace(r"[^0-9a-zA-Z_]", "")\<close>.
\<close>

definition normalize_header :: "string \<Rightarrow> string" where
  "normalize_header h =
     re_sub_class (\<lambda>c. \<not> is_name_char c) ''''
       (re_sub_class is_separator ''_'' (lower (strip h)))"

text \<open>
  The transform in the words of the specification, for comparison: trim the whitespace at
  both ends, lowercase, turn each space, slash, hyphen and hash sign into an underscore,
  then keep only the letters, digits and underscores (letters and digits being the ASCII
  ones, as in the pattern of the code).
\<close>

definition spec_trim :: "string \<Rightarrow> string" where
  "spec_trim s = (let t = dropWhile isspace s in take (length t - length (takeWhile isspace (rev t))) t)"

definition spec_normalize :: "string \<Rightarrow> string" where
  "spec_normalize h =
     filter (\<lambda>c. is_digit c \<or> is_ascii_lower c \<or> is_ascii_upper c \<or> c = CHR ''_'')
       (map (\<lambda>c. if c = CHR '' '' \<or> c = CHR ''/'' \<or> c = CHR ''-'' \<or> c = CHR 0x23 then CHR ''_'' else c)
          (map lower_char (spec_trim h)))"

definition is_canonical_char :: "char \<Rightarrow> bool" where
  "is_canonical_char c = (is_digit c \<or> is_ascii_lower c \<or> c = CHR ''_'')"

section \<open>Data frames\<close>

text \<open>
  A cell of a column is null (\<open>NaN\<close>, \<open>NaT\<close>, \<open>pd.NA\<close>), a text, a number or a
  timestamp. A data frame is its index length and its columns in order, each with its
  label; labels may repeat, as they do in pandas when \<open>df.columns\<close> is assigned a list
  with duplicates.
\<close>

record timestamp =
  ts_year :: int
  ts_month :: nat
  ts_day :: nat

datatype cell = NA | Str string | Num int | Time timestamp

type_synonym series = "cell list"

record dataframe =
  index_len :: nat
  cols :: "(string \<times> series) list"

datatype py_error = KeyError | ValueError | AttributeError | TypeError | ReError

definition labels :: "dataframe \<Rightarrow> string list" where
  "labels df = map fst (cols df)"

definition well_formed :: "dataframe \<Rightarrow> bool" where
  "well_formed df = list_all (\<lambda>kc. length (snd kc) = index_len df) (cols df)"

definition getitem :: "dataframe \<Rightarrow> string \<Rightarrow> series list" where
  \<comment> \<open>\<open>df[name]\<close>: the columns that carry the label (none: \<open>KeyError\<close>; one: a Series;
      several: a DataFrame)\<close>
  "getitem df name = map snd (filter (\<lambda>kc. fst kc = name) (cols df))"

definition map_label :: "string \<Rightarrow> (series \<Rightarrow> series) \<Rightarrow> dataframe \<Rightarrow> dataframe" where
  "map_label name f df =
     df\<lparr>cols := map (\<lambda>kc. if fst kc = name then (fst kc, f (snd kc)) else kc) (cols df)\<rparr>"

definition setitem :: "dataframe \<Rightarrow> string \<Rightarrow> series \<Rightarrow> dataframe" where
  \<comment> \<open>\<open>df[name] = s\<close> for a Series \<open>s\<close>: every column with the label is replaced (pandas
      broadcasts over repeated labels), a new label is appended\<close>
  "setitem df name s =
     (if name \<in> set (labels df) then map_label name (\<lambda>_. s) df
      else df\<lparr>cols := cols df @ [(name, s)]\<rparr>)"

definition setitem_scalar :: "dataframe \<Rightarrow> string \<Rightarrow> cell \<Rightarrow> dataframe" where
  \<comment> \<open>\<open>df[name] = v\<close> for a scalar: a column of the index length\<close>
  "setitem_scalar df name v = setitem df name (replicate (index_len df) v)"

definition fillna :: "cell \<Rightarrow> series \<Rightarrow> series" where
  "fillna v s = map (\<lambda>c. if c = NA then v else c) s"

definition notna_any :: "series \<Rightarrow> bool" where
  "notna_any s = list_ex (\<lambda>c. c \<noteq> NA) s"

definition normalize_columns :: "dataframe \<Rightarrow> dataframe" where
  \<comment> \<open>\<open>df.columns = new_cols\<close>: the labels are replaced position by position\<close>
  "normalize_columns df =
     df\<lparr>cols := zip (map normalize_header (labels df)) (map snd (cols df))\<rparr>"

section \<open>Field deriver\<close>

text \<open>
  \<open>pd.to_datetime(s, errors="coerce")\<close> on a Series is a call into pandas, which looks at
  the whole column (the format is inferred from its first values): the parameter
  \<open>parse\<close> gives the result for a column. \<open>Some ts\<close> is a datetime column, one entry
  for each element, \<open>None\<close> standing for \<open>NaT\<close>; \<open>None\<close> is a result that is not a
  datetime column (pandas returns the dtype \<open>object\<close> for mixed UTC offsets), on which
  \<open>.dt\<close> raises \<open>AttributeError\<close>. \<open>.dt.year\<close> reads the year of a timestamp and is
  null on \<open>NaT\<close>.
\<close>

definition time_cell :: "timestamp option \<Rightarrow> cell" where
  "time_cell t = (case t of None \<Rightarrow> NA | Some x \<Rightarrow> Time x)"

definition to_datetime :: "(series \<Rightarrow> timestamp option list option) \<Rightarrow> series \<Rightarrow> series option" where
  "to_datetime parse s = (case parse s of None \<Rightarrow> None | Some ts \<Rightarrow> Some (map time_cell ts))"

definition dt_year :: "series \<Rightarrow> series" where
  "dt_year s = map (\<lambda>c. case c of Time t \<Rightarrow> Num (ts_year t) | _ \<Rightarrow> NA) s"

text \<open>
  Lines 86 to 90 of \<open>explore.py\<close> and 41 to 45 of \<open>app.py\<close>. With several columns
  labelled \<open>publish_time\<close>, \<open>df["publish_time"]\<close> is a DataFrame and \<open>to_datetime\<close>
  raises \<open>ValueError\<close> (it cannot assemble a date from repeated keys).
\<close>

definition derive_year ::
  "(series \<Rightarrow> timestamp option list option) \<Rightarrow> dataframe \<Rightarrow> py_error + dataframe" where
  "derive_year parse df =
     (if ''publish_time'' \<in> set (labels df) then
        (case getitem df ''publish_time'' of
           [s] \<Rightarrow>
             (case to_datetime parse s of
                None \<Rightarrow> Inl AttributeError
              | Some t \<Rightarrow>
                  (let df1 = setitem df ''publish_time'' t
                   in Inr (setitem df1 ''year'' (dt_year t))))
         | _ \<Rightarrow> Inl ValueError)
      else Inr (setitem_scalar df ''year'' NA))"

text \<open>
  Lines 93 to 101 of \<open>explore.py\<close>: \<open>df[name] = df[name].fillna("")\<close> when the label
  is present (on repeated labels the fill is applied to each of the columns), and
  \<open>df[name] = ""\<close> otherwise.
\<close>

definition fill_text :: "string \<Rightarrow> dataframe \<Rightarrow> dataframe" where
  "fill_text name df =
     (if name \<in> set (labels df) then map_label name (fillna (Str [])) df
      else setitem_scalar df name (Str []))"

text \<open>
  \<open>str.split()\<close> without arguments: the maximal runs of non-whitespace characters. The
  scan keeps the current run reversed in \<open>cur\<close>.
\<close>

fun split_scan :: "string \<Rightarrow> string \<Rightarrow> string list" where
  "split_scan cur [] = (if cur = [] then [] else [rev cur])"
| "split_scan cur (c # cs) =
     (if isspace c then (if cur = [] then split_scan [] cs else rev cur # split_scan [] cs)
      else split_scan (c # cur) cs)"

definition str_split :: "string \<Rightarrow> string list" where
  "str_split s = split_scan [] s"

definition str_split_len :: "series \<Rightarrow> series" where
  \<comment> \<open>\<open>s.str.split().str.len()\<close>; the \<open>.str\<close> methods give null on an element that is
      not a text\<close>
  "str_split_len s = map (\<lambda>c. case c of Str t \<Rightarrow> Num (int (length (str_split t))) | _ \<Rightarrow> NA) s"

text \<open>
  The \<open>.str\<close> accessor of a Series checks what the column holds, nulls left aside, and
  raises \<open>AttributeError\<close> on a column of numbers alone or of timestamps alone; it accepts
  texts and mixed columns. (A column of nulls alone is taken as accepted; the scripts fill
  the nulls before they use \<open>.str\<close>.)
\<close>

definition is_number :: "cell \<Rightarrow> bool" where
  "is_number c = (case c of Num _ \<Rightarrow> True | _ \<Rightarrow> False)"

definition is_time :: "cell \<Rightarrow> bool" where
  "is_time c = (case c of Time _ \<Rightarrow> True | _ \<Rightarrow> False)"

definition str_accessor_ok :: "series \<Rightarrow> bool" where
  "str_accessor_ok s =
     (let v = filter (\<lambda>c. c \<noteq> NA) s
      in v = [] \<or> \<not> (list_all is_number v \<or> list_all is_time v))"

definition add_word_count :: "string \<Rightarrow> string \<Rightarrow> dataframe \<Rightarrow> py_error + dataframe" where
  \<comment> \<open>\<open>df[dst] = df[src].str.split().str.len()\<close>; a DataFrame has no \<open>.str\<close>\<close>
  "add_word_count src dst df =
     (case getitem df src of
        [] \<Rightarrow> Inl KeyError
      | [s] \<Rightarrow> (if str_accessor_ok s then Inr (setitem df dst (str_split_len s))
                 else Inl AttributeError)
      | _ \<Rightarrow> Inl AttributeError)"

definition expected :: "string list" where
  "expected = [''sha'', ''source_x'', ''title'', ''doi'', ''pmcid'', ''pubmed_id'', ''license'',
     ''abstract'', ''publish_time'', ''authors'', ''journal'', ''microsoft_academic_paper_id'',
     ''who_covidence'', ''has_full_text'']"

definition column_warnings :: "dataframe \<Rightarrow> string list" where
  \<comment> \<open>lines 78 to 83 of \<open>explore.py\<close>: the only warning the script prints itself\<close>
  "column_warnings df =
     (if filter (\<lambda>c. c \<in> set (labels df)) expected = []
      then [''Warning: none of the expected columns found.''] else [])"

text \<open>
  Lines 58 to 105 of \<open>main\<close> in \<open>explore.py\<close>: the warnings printed and the cleaned
  table that is then written to \<open>metadata_cleaned.csv\<close>.
\<close>

definition clean ::
  "(series \<Rightarrow> timestamp option list option) \<Rightarrow> dataframe \<Rightarrow> py_error + (string list \<times> dataframe)" where
  "clean parse df0 =
     (let df = normalize_columns df0; w = column_warnings df in
      case derive_year parse df of
        Inl e \<Rightarrow> Inl e
      | Inr df1 \<Rightarrow>
          (let df2 = fill_text ''abstract'' df1;
               df3 = fill_text ''title'' df2 in
           case add_word_count ''abstract'' ''abstract_word_count'' df3 of
             Inl e \<Rightarrow> Inl e
           | Inr df4 \<Rightarrow>
               (case add_word_count ''title'' ''title_word_count'' df4 of
                  Inl e \<Rightarrow> Inl e
                | Inr df5 \<Rightarrow> Inr (w, df5))))"

text \<open>
  The year of one parsed value in the words of the specification: null for a value that
  is absent or did not parse (\<open>NaT\<close>), the calendar year of the parsed date otherwise.
\<close>

definition year_of :: "timestamp option \<Rightarrow> cell" where
  "year_of t = (case t of None \<Rightarrow> NA | Some x \<Rightarrow> Num (ts_year x))"



definition example_parse :: "series \<Rightarrow> timestamp option list option" where
  \<comment> \<open>a \<open>to_datetime\<close> for the examples: it knows one date, and it gives no datetime
      column when two UTC offsets meet in a column\<close>
  "example_parse s =
     (if Str ''2020-01-01T00:00:00+01:00'' \<in> set s \<and> Str ''2020-01-01T00:00:00+02:00'' \<in> set s
      then None
      else Some (map (\<lambda>c. if c = Str ''2020-03-15''
                           then Some \<lparr>ts_year = 2020, ts_month = 3, ts_day = 15\<rparr> else None) s))"

section \<open>Sampler\<close>

text \<open>
  Lines 113 to 118 of \<open>explore.py\<close>. \<open>df.sample(n=n, random_state=42)\<close> builds a fresh
  \<open>RandomState(42)\<close>, draws \<open>choice(len(df), size=n, replace=False)\<close>, which is the
  first \<open>n\<close> entries of \<open>permutation(len(df))\<close>, and takes those rows. The permutation
  that a \<open>RandomState\<close> of a given seed returns for a given length is the parameter
  \<open>permutation\<close>.
\<close>

definition choice :: "(nat \<Rightarrow> nat list) \<Rightarrow> nat \<Rightarrow> nat \<Rightarrow> nat list" where
  "choice perm a k = take k (perm a)"

definition take_rows :: "nat list \<Rightarrow> dataframe \<Rightarrow> dataframe" where
  \<comment> \<open>\<open>df.take(locs)\<close>\<close>
  "take_rows locs df =
     \<lparr>index_len = length locs, cols = map (\<lambda>kc. (fst kc, map (\<lambda>i. snd kc ! i) locs)) (cols df)\<rparr>"

definition df_sample :: "(nat \<Rightarrow> nat \<Rightarrow> nat list) \<Rightarrow> nat \<Rightarrow> nat \<Rightarrow> dataframe \<Rightarrow> py_error + dataframe" where
  \<comment> \<open>\<open>df.sample(n=n, random_state=seed)\<close>; a sample larger than the population is refused\<close>
  "df_sample permutation n seed df =
     (if index_len df < n then Inl ValueError
      else Inr (take_rows (choice (permutation seed) (index_len df) n) df))"

definition sample_step :: "(nat \<Rightarrow> nat \<Rightarrow> nat list) \<Rightarrow> int \<Rightarrow> dataframe \<Rightarrow> (py_error + dataframe) option" where
  \<comment> \<open>\<open>None\<close>: no sample is written\<close>
  "sample_step permutation sample_size df =
     (if sample_size \<noteq> 0 \<and> sample_size > 0 then
        (let n = min sample_size (int (index_len df))
         in Some (df_sample permutation (nat n) 42 df))
      else None)"

definition rows_of :: "dataframe \<Rightarrow> cell list list" where
  \<comment> \<open>the records of a table, each the cells of one index position in column order\<close>
  "rows_of df = map (\<lambda>i. map (\<lambda>kc. snd kc ! i) (cols df)) [0..<index_len df]"

section \<open>Title word table\<close>

definition is_word_char :: "char \<Rightarrow> bool" where
  \<comment> \<open>the class \<open>\w\<close>\<close>
  "is_word_char c =
     (is_digit c \<or> is_ascii_lower c \<or> is_ascii_upper c \<or> c = CHR ''_''
      \<or> ord c = 170 \<or> ord c = 178 \<or> ord c = 179 \<or> ord c = 181 \<or> ord c = 185 \<or> ord c = 186
      \<or> (188 \<le> ord c \<and> ord c \<le> 190)
      \<or> (192 \<le> ord c \<and> ord c \<noteq> 215 \<and> ord c \<noteq> 247))"

text \<open>
  \<open>re.findall(r"\b\w+\b", text)\<close>: the scan collects the maximal runs of word
  characters from left to right; the current run is kept reversed in \<open>cur\<close>.
\<close>

fun word_scan :: "string \<Rightarrow> string \<Rightarrow> string list" where
  "word_scan cur [] = (if cur = [] then [] else [rev cur])"
| "word_scan cur (c # cs) =
     (if is_word_char c then word_scan (c # cur) cs
      else (if cur = [] then word_scan [] cs else rev cur # word_scan [] cs))"

definition findall_words :: "string \<Rightarrow> string list" where
  "findall_words s = word_scan [] s"

fun join :: "string \<Rightarrow> string list \<Rightarrow> string" where
  \<comment> \<open>\<open>sep.join(xs)\<close>\<close>
  "join sep [] = []"
| "join sep [x] = x"
| "join sep (x # y # ys) = x @ sep @ join sep (y # ys)"

definition stopwords :: "string list" where
  "stopwords = [''the'', ''and'', ''of'', ''in'', ''to'', ''a'', ''for'', ''on'', ''with'', ''by'',
     ''an'', ''is'', ''from'', ''that'', ''are'', ''as'', ''at'', ''be'', ''this'', ''we'', ''our'', ''or'',
     ''using'', ''use'', ''study'', ''studies'', ''paper'', ''research'', ''covid'', ''covid19'',
     ''coronavirus'', ''sars'', ''sarscov2'', ''2019'', ''2019ncov'', ''novel'']"

definition keep_word :: "string \<Rightarrow> bool" where
  "keep_word w = (w \<notin> set stopwords \<and> length w > 2)"

text \<open>
  \<open>Counter(filtered)\<close>: a dictionary in insertion order; a word seen again has its count
  raised in place, a new word is added at the end.
\<close>

fun counter_add :: "string \<Rightarrow> (string \<times> nat) list \<Rightarrow> (string \<times> nat) list" where
  "counter_add w [] = [(w, 1)]"
| "counter_add w (kn # r) = (if fst kn = w then (fst kn, snd kn + 1) # r else kn # counter_add w r)"

definition counter :: "string list \<Rightarrow> (string \<times> nat) list" where
  "counter ws = foldl (\<lambda>c w. counter_add w c) [] ws"

text \<open>
  \<open>most_common(n)\<close> is \<open>heapq.nlargest(n, items, key=count)\<close>, which is
  \<open>sorted(items, key=count, reverse=True)[:n]\<close>: a stable sort on descending count.
\<close>

definition most_common :: "nat \<Rightarrow> (string \<times> nat) list \<Rightarrow> (string \<times> nat) list" where
  "most_common n c = take n (sort_key (\<lambda>kn. - int (snd kn)) c)"

text \<open>Lines 172 and 182 to 226 of \<open>explore.py\<close>, from the titles that are left after \<open>dropna\<close>.\<close>

definition title_tokens :: "string list \<Rightarrow> string list" where
  "title_tokens titles = findall_words (lower (join '' '' titles))"

definition top_title_words :: "string list \<Rightarrow> (string \<times> nat) list" where
  "top_title_words titles = most_common 200 (counter (filter keep_word (title_tokens titles)))"

text \<open>
  The table of a text in the words of the specification: cut the text at every character
  that is not a word character and keep the non-empty pieces, drop short words and
  stopwords, count each word that is left, listed in the order of first appearance, rank by
  descending count and keep 200.
\<close>

fun pieces :: "string \<Rightarrow> string list" where
  "pieces [] = [[]]"
| "pieces (c # cs) =
     (if is_word_char c then (case pieces cs of p # ps \<Rightarrow> (c # p) # ps | [] \<Rightarrow> [[c]])
      else [] # pieces cs)"

definition first_seen :: "string list \<Rightarrow> string list" where
  "first_seen ws = rev (remdups (rev ws))"

definition word_table :: "string \<Rightarrow> (string \<times> nat) list" where
  "word_table body =
     (let ws = filter (\<lambda>w. \<not> (length w \<le> 2 \<or> w \<in> set stopwords)) (filter (\<lambda>p. p \<noteq> []) (pieces body));
          table = map (\<lambda>w. (w, count_list ws w)) (first_seen ws)
      in take 200 (sort_key (\<lambda>kn. - int (snd kn)) table))"

text \<open>
  The text of the specification: every title lowercased, and the titles concatenated.
\<close>

definition spec_top_title_words :: "string list \<Rightarrow> (string \<times> nat) list" where
  "spec_top_title_words titles = word_table (concat (map lower titles))"

text \<open>
  The text as the code builds it, said without \<open>join\<close>: every title lowercased, and the
  titles put one after the other with one blank between two neighbours (a blank is put
  before every title and the first blank is dropped).
\<close>

definition blank_separated :: "string list \<Rightarrow> string" where
  "blank_separated xs = tl (concat (map (\<lambda>x. CHR '' '' # x) xs))"

definition amended_top_title_words :: "string list \<Rightarrow> (string \<times> nat) list" where
  "amended_top_title_words titles = word_table (blank_separated (map lower titles))"

definition example_permutation :: "nat \<Rightarrow> nat \<Rightarrow> nat list" where
  \<comment> \<open>a permutation source for the examples: whatever the seed, the indices in reverse\<close>
  "example_permutation seed m = rev [0..<m]"

section \<open>Interactive viewer\<close>

text \<open>
  \<open>load_df\<close> of \<open>app.py\<close>, lines 34 to 51. \<open>df.get(name, "")\<close> is the column when
  the label is present and the text \<open>""\<close> otherwise, and a \<open>str\<close> has no \<open>fillna\<close>:
  the call raises \<open>AttributeError\<close>. \<open>astype(str)\<close> keeps a text and writes any other cell
  with Python's \<open>str\<close>, the parameter \<open>fmt\<close>.
\<close>

definition astype_str :: "(cell \<Rightarrow> string) \<Rightarrow> series \<Rightarrow> series" where
  "astype_str fmt s = map (\<lambda>c. case c of Str t \<Rightarrow> Str t | _ \<Rightarrow> Str (fmt c)) s"

definition ensure_text :: "(cell \<Rightarrow> string) \<Rightarrow> string \<Rightarrow> dataframe \<Rightarrow> py_error + dataframe" where
  "ensure_text fmt name df =
     (if name \<in> set (labels df)
      then Inr (map_label name (\<lambda>s. astype_str fmt (fillna (Str []) s)) df)
      else Inl AttributeError)"

fun ensure_all :: "(cell \<Rightarrow> string) \<Rightarrow> string list \<Rightarrow> dataframe \<Rightarrow> py_error + dataframe" where
  "ensure_all fmt [] df = Inr df"
| "ensure_all fmt (name # names) df =
     (case ensure_text fmt name df of Inl e \<Rightarrow> Inl e | Inr df' \<Rightarrow> ensure_all fmt names df')"

definition text_fields :: "string list" where
  "text_fields = [''title'', ''abstract'', ''authors'', ''journal'', ''source_x'']"

definition load_df ::
  "(series \<Rightarrow> timestamp option list option) \<Rightarrow> (cell \<Rightarrow> string) \<Rightarrow> dataframe \<Rightarrow> py_error + dataframe" where
  "load_df parse fmt df0 =
     (case derive_year parse (normalize_columns df0) of
        Inl e \<Rightarrow> Inl e
      | Inr df1 \<Rightarrow>
          (case ensure_all fmt text_fields df1 of
             Inl e \<Rightarrow> Inl e
           | Inr df2 \<Rightarrow> add_word_count ''abstract'' ''abstract_word_count'' df2))"

text \<open>
  The filters of lines 85 to 91. A row selection \<open>filtered[mask]\<close> keeps the index
  positions where the mask is true. \<open>series_of\<close> is \<open>df[name]\<close> where the script needs
  a Series; with a repeated label the expression is a DataFrame and the script fails with
  the error given.
\<close>

definition series_of :: "dataframe \<Rightarrow> string \<Rightarrow> py_error \<Rightarrow> py_error + series" where
  "series_of df name e = (case getitem df name of [] \<Rightarrow> Inl KeyError | [s] \<Rightarrow> Inr s | _ \<Rightarrow> Inl e)"

definition filter_rows :: "bool list \<Rightarrow> dataframe \<Rightarrow> dataframe" where
  "filter_rows keep df =
     \<lparr>index_len = length (filter id keep),
      cols = map (\<lambda>kc. (fst kc, map snd (filter fst (zip keep (snd kc))))) (cols df)\<rparr>"

definition year_in_range :: "int \<Rightarrow> int \<Rightarrow> cell \<Rightarrow> bool option" where
  \<comment> \<open>\<open>(y >= lo) & (y <= hi)\<close>: false on a null, a \<open>TypeError\<close> on a text or a timestamp\<close>
  "year_in_range lo hi c =
     (case c of NA \<Rightarrow> Some False | Num y \<Rightarrow> Some (lo \<le> y \<and> y \<le> hi) | _ \<Rightarrow> None)"

definition year_filter :: "int \<Rightarrow> int \<Rightarrow> dataframe \<Rightarrow> py_error + dataframe" where
  "year_filter lo hi df =
     (case series_of df ''year'' ValueError of
        Inl e \<Rightarrow> Inl e
      | Inr s \<Rightarrow>
          (if notna_any s then
             (case those (map (year_in_range lo hi) s) of
                None \<Rightarrow> Inl TypeError
              | Some keep \<Rightarrow> Inr (filter_rows keep df))
           else Inr df))"

definition source_filter :: "string \<Rightarrow> dataframe \<Rightarrow> py_error + dataframe" where
  "source_filter selected_source df =
     (if selected_source \<noteq> ''All'' then
        (case series_of df ''source_x'' ValueError of
           Inl e \<Rightarrow> Inl e
         | Inr s \<Rightarrow>
             Inr (filter_rows (map (\<lambda>c. c = Str selected_source) (fillna (Str ''Unknown'') s)) df))
      else Inr df)"

definition title_filter :: "(string \<Rightarrow> (string \<Rightarrow> bool) option) \<Rightarrow> string \<Rightarrow> dataframe \<Rightarrow> py_error + dataframe" where
  \<comment> \<open>\<open>re_compile\<close>: the case-insensitive search of a pattern, \<open>None\<close> when the pattern does
      not compile; \<open>na=False\<close> on an element that is not a text\<close>
  "title_filter re_compile title_query df =
     (if strip title_query \<noteq> [] then
        (case series_of df ''title'' AttributeError of
           Inl e \<Rightarrow> Inl e
         | Inr s \<Rightarrow>
             (case re_compile title_query of
                None \<Rightarrow> Inl ReError
              | Some found \<Rightarrow>
                  Inr (filter_rows (map (\<lambda>c. case c of Str t \<Rightarrow> found t | _ \<Rightarrow> False) s) df)))
      else Inr df)"

definition apply_filters ::
  "(string \<Rightarrow> (string \<Rightarrow> bool) option) \<Rightarrow> int \<times> int \<Rightarrow> string \<Rightarrow> string \<Rightarrow> dataframe \<Rightarrow> py_error + dataframe" where
  "apply_filters re_compile year_range selected_source title_query df =
     (case year_filter (fst year_range) (snd year_range) df of
        Inl e \<Rightarrow> Inl e
      | Inr f1 \<Rightarrow>
          (case source_filter selected_source f1 of
             Inl e \<Rightarrow> Inl e
           | Inr f2 \<Rightarrow> title_filter re_compile title_query f2))"

definition example_fmt :: "cell \<Rightarrow> string" where
  \<comment> \<open>a \<open>str\<close> for the examples: it only knows how a null is written\<close>
  "example_fmt c = ''nan''"

definition example_re_compile :: "string \<Rightarrow> (string \<Rightarrow> bool) option" where
  \<comment> \<open>a pattern compiler for the examples: every pattern compiles and is found in a text
      that it is a prefix of\<close>
  "example_re_compile q = Some (\<lambda>t. take (length q) t = q)"

text \<open>The years of a table: there is a year column, and every year is a number from \<open>lo\<close> to \<open>hi\<close>.\<close>

definition years_in :: "int \<Rightarrow> int \<Rightarrow> dataframe \<Rightarrow> bool" where
  "years_in lo hi df =
     (getitem df ''year'' \<noteq> []
      \<and> list_all (list_all (\<lambda>c. c \<noteq> NA \<and> year_in_range lo hi c = Some True)) (getitem df ''year''))"

section \<open>Properties of the column normalizer\<close>

lemma ord_underscore: "ord (CHR ''_'') = 95"
  by (simp add: ord_def)

lemma ord_separators:
  "ord (CHR '' '') = 32" "ord (CHR ''/'') = 47" "ord (CHR ''-'') = 45" "ord (CHR 0x23) = 35"
  by (simp_all add: ord_def)

lemma ord_lower_char: "isupper c \<Longrightarrow> ord (lower_char c) = ord c + 32"
  by (auto simp: lower_char_def isupper_def ord_def)

lemma lower_char_not_upper: "\<not> is_ascii_upper (lower_char c)"
  by (cases "isupper c") (auto simp: ord_lower_char is_ascii_upper_def, auto simp: lower_char_def isupper_def)

lemma re_sub_class_delete: "re_sub_class cls [] s = filter (\<lambda>c. \<not> cls c) s"
  by (induction s) (simp_all add: re_sub_class_def)

lemma re_sub_class_single: "re_sub_class cls [u] s = map (\<lambda>c. if cls c then u else c) s"
  by (induction s) (simp_all add: re_sub_class_def)

lemma strip_spec_trim: "strip s = spec_trim s"
proof -
  define t where "t = dropWhile isspace s"
  have "rev t = takeWhile isspace (rev t) @ dropWhile isspace (rev t)" by simp
  then have "t = rev (dropWhile isspace (rev t)) @ rev (takeWhile isspace (rev t))"
    by (metis rev_append rev_rev_ident)
  then have "take (length t - length (takeWhile isspace (rev t))) t = rev (dropWhile isspace (rev t))"
    by (metis append_eq_conv_conj length_append length_rev add_diff_cancel_right')
  then show ?thesis by (simp add: strip_def spec_trim_def t_def Let_def)
qed

lemma canonical_facts:
  assumes "is_canonical_char c"
  shows "\<not> isspace c" "lower_char c = c" "\<not> is_separator c" "is_name_char c"
  using assms
  by (auto simp: is_canonical_char_def isspace_def lower_char_def isupper_def is_separator_def
      is_name_char_def is_digit_def is_ascii_lower_def ord_separators ord_underscore)

lemma normalize_header_filter_map:
  "normalize_header h =
     filter is_name_char (map (\<lambda>c. if is_separator c then CHR ''_'' else c) (lower (strip h)))"
  by (simp add: normalize_header_def re_sub_class_delete re_sub_class_single)

lemma canonical_underscore: "is_canonical_char (CHR ''_'')"
  by (simp add: is_canonical_char_def)

lemma canonical_lower_char: "is_name_char (lower_char c) \<Longrightarrow> is_canonical_char (lower_char c)"
  using lower_char_not_upper [of c]
  by (auto simp: is_canonical_char_def is_name_char_def)

lemma normalize_header_canonical: "list_all is_canonical_char (normalize_header h)"
  unfolding normalize_header_filter_map list_all_iff lower_def
  by (auto simp: canonical_underscore canonical_lower_char)

lemma dropWhile_none: "list_all (\<lambda>c. \<not> P c) s \<Longrightarrow> dropWhile P s = s"
  by (cases s) auto

lemma strip_no_space: "list_all (\<lambda>c. \<not> isspace c) s \<Longrightarrow> strip s = s"
  by (simp add: strip_def dropWhile_none)

lemma normalize_header_fixed:
  assumes "list_all is_canonical_char s"
  shows "normalize_header s = s"
proof -
  from assms have ns: "list_all (\<lambda>c. \<not> isspace c) s"
    by (auto simp: list_all_iff canonical_facts)
  have lo: "lower s = s"
    using assms by (auto simp: lower_def list_all_iff canonical_facts intro: map_idI)
  have mp: "map (\<lambda>c. if is_separator c then CHR ''_'' else c) s = s"
    using assms by (auto simp: list_all_iff canonical_facts intro: map_idI)
  have fl: "filter is_name_char s = s"
    using assms by (auto simp: list_all_iff canonical_facts)
  show ?thesis
    by (simp add: normalize_header_filter_map strip_no_space [OF ns] lo mp fl)
qed

text \<open>
  C4. On every header the chain of the code computes the transform of the specification
  (trim, lowercase, underscore for blank, slash, hyphen and hash sign, delete what is not
  an ASCII letter, a digit or an underscore), and the result is made of lowercase ASCII
  letters, digits and underscores only, so it holds no whitespace, at the ends or elsewhere.
\<close>

theorem normalize_header_spec:
  "normalize_header h = spec_normalize h
   \<and> list_all is_canonical_char (normalize_header h)
   \<and> list_all (\<lambda>c. \<not> isspace c) (normalize_header h)"
proof -
  have "normalize_header h = spec_normalize h"
    unfolding normalize_header_filter_map spec_normalize_def lower_def strip_spec_trim
      is_name_char_def is_separator_def ..
  moreover have "list_all (\<lambda>c. \<not> isspace c) (normalize_header h)"
    using normalize_header_canonical [of h] by (auto simp: list_all_iff canonical_facts)
  ultimately show ?thesis using normalize_header_canonical [of h] by blast
qed

lemma normalize_header_examples:
  "normalize_header ''Title'' = ''title''"
  "normalize_header ''Publish Time'' = ''publish_time''"
  "normalize_header '' Source/X-id No. 7 '' = ''source_x_id_no_7''"
  by code_simp+

text \<open>
  C5. Normalizing a header twice gives what normalizing it once gives.
\<close>

theorem normalize_header_idempotent:
  "normalize_header (normalize_header h) = normalize_header h"
  by (rule normalize_header_fixed) (rule normalize_header_canonical)

lemma cols_normalize_columns:
  "cols (normalize_columns df) = map (\<lambda>kc. (normalize_header (fst kc), snd kc)) (cols df)"
  by (simp add: normalize_columns_def labels_def zip_map_map zip_same_conv_map)

text \<open>
  C6, as the code has it. Renaming the labels removes no column: the table keeps its index,
  every column stays at its position with its data, and the columns whose headers
  normalize to one name all carry that name afterwards, so that \<open>df[name]\<close> is all of
  them in their order.
\<close>

theorem normalize_columns_keeps_all:
  "index_len (normalize_columns df) = index_len df
   \<and> map snd (cols (normalize_columns df)) = map snd (cols df)
   \<and> labels (normalize_columns df) = map normalize_header (labels df)
   \<and> getitem (normalize_columns df) name
       = map snd (filter (\<lambda>kc. normalize_header (fst kc) = name) (cols df))"
proof -
  have "index_len (normalize_columns df) = index_len df"
    by (simp add: normalize_columns_def)
  moreover have "map snd (cols (normalize_columns df)) = map snd (cols df)"
    by (simp add: cols_normalize_columns o_def)
  moreover have "labels (normalize_columns df) = map normalize_header (labels df)"
    by (simp add: labels_def cols_normalize_columns o_def)
  moreover have "getitem (normalize_columns df) name
       = map snd (filter (\<lambda>kc. normalize_header (fst kc) = name) (cols df))"
    by (simp add: getitem_def cols_normalize_columns filter_map o_def)
  ultimately show ?thesis by blast
qed

text \<open>
  C6, as the specification states it, fails: the header \<open>Title\<close> and the header
  \<open>title\<close> with a blank after it collide on \<open>title\<close>, and the table then has two
  columns of that name, the first colliding column included, not the last one alone.
\<close>

theorem normalize_columns_collision_counterexample:
  "normalize_header ''Title'' = ''title'' \<and> normalize_header ''title '' = ''title''
   \<and> getitem (normalize_columns \<lparr>index_len = 1,
          cols = [(''Title'', [Str ''first'']), (''title '', [Str ''last''])]\<rparr>) ''title''
       = [[Str ''first''], [Str ''last'']]
   \<and> getitem (normalize_columns \<lparr>index_len = 1,
          cols = [(''Title'', [Str ''first'']), (''title '', [Str ''last''])]\<rparr>) ''title''
       \<noteq> [[Str ''last'']]"
  by code_simp

section \<open>Properties of the title word table\<close>

lemma lower_join: "lower (join sep xs) = join (lower sep) (map lower xs)"
  by (induction sep xs rule: join.induct) (simp_all add: lower_def)

lemma lower_blank: "lower '' '' = '' ''"
  by code_simp

lemma pieces_not_Nil: "pieces s \<noteq> []"
  by (induction s) (auto split: list.splits)

lemma word_scan_pieces:
  "word_scan cur s = filter (\<lambda>p. p \<noteq> []) ((rev cur @ hd (pieces s)) # tl (pieces s))"
proof (induction s arbitrary: cur)
  case Nil
  show ?case by simp
next
  case (Cons c cs)
  obtain p ps where ps: "pieces cs = p # ps"
    using pieces_not_Nil [of cs] by (cases "pieces cs") auto
  show ?case
  proof (cases "is_word_char c")
    case True
    then show ?thesis using Cons [of "c # cur"] ps by simp
  next
    case False
    then show ?thesis using Cons [of "[]"] ps by simp
  qed
qed

lemma findall_words_pieces: "findall_words s = filter (\<lambda>p. p \<noteq> []) (pieces s)"
  using word_scan_pieces [of "[]" s] pieces_not_Nil [of s]
  by (cases "pieces s") (simp_all add: findall_words_def)

lemma counter_snoc: "counter (ws @ [w]) = counter_add w (counter ws)"
  by (simp add: counter_def)

lemma counter_add_table:
  "distinct ks \<Longrightarrow>
   counter_add w (map (\<lambda>k. (k, f k)) ks) =
     (if w \<in> set ks then map (\<lambda>k. (k, if k = w then f k + 1 else f k)) ks
      else map (\<lambda>k. (k, f k)) ks @ [(w, 1)])"
  by (induction ks) auto

lemma first_seen_snoc:
  "first_seen (ws @ [w]) = (if w \<in> set ws then first_seen ws else first_seen ws @ [w])"
  by (simp add: first_seen_def)

lemma distinct_first_seen: "distinct (first_seen ws)"
  by (simp add: first_seen_def)

lemma set_first_seen: "set (first_seen ws) = set ws"
  by (simp add: first_seen_def)

lemma counter_table: "counter ws = map (\<lambda>w. (w, count_list ws w)) (first_seen ws)"
proof (induction ws rule: rev_induct)
  case Nil
  show ?case by (simp add: counter_def first_seen_def)
next
  case (snoc w ws)
  have "counter (ws @ [w]) = counter_add w (map (\<lambda>k. (k, count_list ws k)) (first_seen ws))"
    by (simp add: counter_snoc snoc)
  also have "\<dots> = map (\<lambda>k. (k, count_list (ws @ [w]) k)) (first_seen (ws @ [w]))"
    by (auto simp: counter_add_table distinct_first_seen set_first_seen first_seen_snoc
        count_list_0_iff)
  finally show ?case .
qed

lemma keep_word_spec: "keep_word = (\<lambda>w. \<not> (length w \<le> 2 \<or> w \<in> set stopwords))"
  by (auto simp: keep_word_def fun_eq_iff)

lemma join_blank_separated: "join '' '' xs = blank_separated xs"
  by (induction "'' ''" xs rule: join.induct) (simp_all add: blank_separated_def)

lemma blank_not_word_char: "\<not> is_word_char (CHR '' '')"
  by code_simp

lemma word_scan_append_sep:
  "\<not> is_word_char c \<Longrightarrow> word_scan cur (x @ c # y) = word_scan cur x @ word_scan [] y"
  by (induction x arbitrary: cur) simp_all

lemma findall_words_join:
  "findall_words (join '' '' xs) = concat (map findall_words xs)"
proof (induction "'' ''" xs rule: join.induct)
  case 1
  show ?case by (simp add: findall_words_def)
next
  case (2 x)
  show ?case by simp
next
  case (3 x y ys)
  have "findall_words (x @ CHR '' '' # join '' '' (y # ys))
      = findall_words x @ findall_words (join '' '' (y # ys))"
    unfolding findall_words_def by (rule word_scan_append_sep [OF blank_not_word_char])
  with 3 show ?case by simp
qed

lemma title_tokens_per_title:
  "title_tokens titles = concat (map (\<lambda>t. findall_words (lower t)) titles)"
  by (simp add: title_tokens_def lower_join lower_blank findall_words_join o_def)

lemma lower_blank_separated: "lower (blank_separated xs) = blank_separated (map lower xs)"
  using lower_join [of "'' ''" xs] by (simp add: lower_blank join_blank_separated)

lemma top_title_words_refines: "top_title_words titles = amended_top_title_words titles"
  by (simp add: top_title_words_def amended_top_title_words_def word_table_def most_common_def
      title_tokens_def join_blank_separated lower_blank_separated findall_words_pieces
      counter_table keep_word_spec Let_def)

lemma filter_take_prefix:
  "filter P (take n xs) = take (length (filter P (take n xs))) (filter P xs)"
proof -
  have "filter P xs = filter P (take n xs) @ filter P (drop n xs)"
    by (metis append_take_drop_id filter_append)
  then show ?thesis by simp
qed

lemma fst_counter: "map fst (counter ws) = first_seen ws"
  by (simp add: counter_table o_def)

text \<open>
  C2, as the code has it. The titles are lowercased and put one after the other with a
  blank between two neighbours, so the tokens of the text are the tokens of the first
  title, then those of the second, and so on. The table the code computes from them is
  the table of the specification for that text: maximal runs of word characters, short
  words and stopwords dropped, the rest counted in the order of first appearance, ranked
  by descending count with a stable sort and cut at 200. So no entry is a stopword or has
  length two or less, every entry carries the number of its occurrences among the kept
  tokens, the counts descend, and the entries of any one count are the first entries of
  that count in the order in which the words were first met.
\<close>

theorem top_title_words_amended:
  "top_title_words titles = amended_top_title_words titles
   \<and> title_tokens titles = concat (map (\<lambda>t. findall_words (lower t)) titles)
   \<and> list_all (\<lambda>kn. fst kn \<notin> set stopwords \<and> 2 < length (fst kn)
                   \<and> snd kn = count_list (filter keep_word (title_tokens titles)) (fst kn))
        (top_title_words titles)
   \<and> length (top_title_words titles) \<le> 200
   \<and> sorted (map (\<lambda>kn. - int (snd kn)) (top_title_words titles))
   \<and> map fst (counter (filter keep_word (title_tokens titles)))
        = first_seen (filter keep_word (title_tokens titles))
   \<and> filter (\<lambda>kn. snd kn = k) (top_title_words titles)
        = take (length (filter (\<lambda>kn. snd kn = k) (top_title_words titles)))
            (filter (\<lambda>kn. snd kn = k) (counter (filter keep_word (title_tokens titles))))"
proof -
  define ws where "ws = filter keep_word (title_tokens titles)"
  define key where "key = (\<lambda>kn :: string \<times> nat. - int (snd kn))"
  have top: "top_title_words titles = take 200 (sort_key key (counter ws))"
    by (simp add: top_title_words_def most_common_def ws_def key_def)
  have "set (top_title_words titles) \<subseteq> set (counter ws)"
    unfolding top using set_take_subset [of 200 "sort_key key (counter ws)"] by simp
  then have entries: "kn \<in> set (top_title_words titles) \<Longrightarrow>
      fst kn \<in> set ws \<and> snd kn = count_list ws (fst kn)" for kn
    by (auto simp: counter_table set_first_seen)
  have c1: "list_all (\<lambda>kn. fst kn \<notin> set stopwords \<and> 2 < length (fst kn)
                   \<and> snd kn = count_list ws (fst kn)) (top_title_words titles)"
    unfolding list_all_iff
  proof
    fix kn assume "kn \<in> set (top_title_words titles)"
    from entries [OF this] have "fst kn \<in> set ws" and "snd kn = count_list ws (fst kn)"
      by simp_all
    moreover from \<open>fst kn \<in> set ws\<close> have "keep_word (fst kn)" by (simp add: ws_def)
    ultimately show "fst kn \<notin> set stopwords \<and> 2 < length (fst kn)
        \<and> snd kn = count_list ws (fst kn)"
      by (simp add: keep_word_def)
  qed
  have c2: "length (top_title_words titles) \<le> 200"
    by (simp add: top)
  have "sorted (map key (sort_key key (counter ws)))"
    by (rule sorted_sort_key)
  then have c3: "sorted (map key (top_title_words titles))"
    unfolding top take_map [symmetric] by (rule sorted_wrt_take)
  have same: "(\<lambda>kn :: string \<times> nat. snd kn = k) = (\<lambda>kn. key kn = - int k)"
    by (auto simp: key_def fun_eq_iff)
  have "filter (\<lambda>kn. snd kn = k) (sort_key key (counter ws))
          = filter (\<lambda>kn. snd kn = k) (counter ws)"
    unfolding same by (rule sort_key_stable)
  then have c5: "filter (\<lambda>kn. snd kn = k) (top_title_words titles)
        = take (length (filter (\<lambda>kn. snd kn = k) (top_title_words titles)))
            (filter (\<lambda>kn. snd kn = k) (counter ws))"
    unfolding top using filter_take_prefix [of "\<lambda>kn. snd kn = k" 200 "sort_key key (counter ws)"]
    by simp
  show ?thesis
    using top_title_words_refines [of titles] title_tokens_per_title [of titles]
      c1 c2 c3 c5 fst_counter [of ws]
    unfolding ws_def key_def by blast
qed

text \<open>
  C2, as the specification states it, fails: the titles \<open>abc\<close> and \<open>def\<close>
  concatenated are the one word \<open>abcdef\<close>, while the code, which joins them with a
  blank, counts the two words \<open>abc\<close> and \<open>def\<close>.
\<close>

theorem top_title_words_concat_counterexample:
  "top_title_words [''abc'', ''def''] = [(''abc'', 1), (''def'', 1)]
   \<and> spec_top_title_words [''abc'', ''def''] = [(''abcdef'', 1)]
   \<and> top_title_words [''abc'', ''def''] \<noteq> spec_top_title_words [''abc'', ''def'']"
  by code_simp

lemma top_title_words_example:
  "top_title_words [''Trial of a Vaccine'', ''vaccine results'', ''The RESULTS, on trial: Vaccine'']
     = [(''vaccine'', 3), (''trial'', 2), (''results'', 2)]"
  by code_simp

text \<open>
  C9, as the code has it. The title \<open>COVID-19 vaccine trial results\<close> is cut at the
  hyphen into \<open>covid\<close> and \<open>19\<close>; \<open>covid\<close> is dropped as a stopword and \<open>19\<close>
  for its length, and the tokens that reach the table are \<open>vaccine\<close>, \<open>trial\<close> and
  \<open>results\<close>, once each.
\<close>

theorem covid_title_tokens:
  "title_tokens [''COVID-19 vaccine trial results'']
     = [''covid'', ''19'', ''vaccine'', ''trial'', ''results'']
   \<and> ''covid'' \<in> set stopwords \<and> length ''19'' \<le> 2
   \<and> filter keep_word (title_tokens [''COVID-19 vaccine trial results''])
       = [''vaccine'', ''trial'', ''results'']
   \<and> top_title_words [''COVID-19 vaccine trial results'']
       = [(''vaccine'', 1), (''trial'', 1), (''results'', 1)]"
  by code_simp

text \<open>
  C9, as the specification states it, fails in its second half: no token \<open>covid19\<close>
  arises from that title, so none is dropped as a stopword.
\<close>

theorem covid19_token_counterexample:
  "\<not> (set (filter keep_word (title_tokens [''COVID-19 vaccine trial results'']))
        = {''vaccine'', ''trial'', ''results''}
      \<and> ''covid19'' \<in> set (title_tokens [''COVID-19 vaccine trial results'']))"
  by code_simp

section \<open>Properties of the data frame operations\<close>

lemma labels_map_label: "labels (map_label name f df) = labels df"
  by (simp add: labels_def map_label_def o_def if_distrib [of fst] cong: if_cong)

lemma index_len_map_label: "index_len (map_label name f df) = index_len df"
  by (simp add: map_label_def)

lemma getitem_map_label:
  "getitem (map_label name f df) m = (if m = name then map f (getitem df name) else getitem df m)"
proof -
  have "map snd (filter (\<lambda>kc. fst kc = m) (map (\<lambda>kc. if fst kc = name then (fst kc, f (snd kc)) else kc) xs))
      = (if m = name then map f (map snd (filter (\<lambda>kc. fst kc = name) xs))
         else map snd (filter (\<lambda>kc. fst kc = m) xs))" for xs
    by (induction xs) auto
  then show ?thesis by (simp add: getitem_def map_label_def)
qed

lemma getitem_Nil_iff: "getitem df name = [] \<longleftrightarrow> name \<notin> set (labels df)"
  by (auto simp: getitem_def labels_def filter_empty_conv)

lemma index_len_setitem: "index_len (setitem df name s) = index_len df"
  by (simp add: setitem_def index_len_map_label)

lemma labels_setitem: "set (labels (setitem df name s)) = insert name (set (labels df))"
  by (auto simp: setitem_def labels_map_label) (auto simp: labels_def)

lemma getitem_setitem_same:
  "getitem (setitem df name s) name = replicate (max 1 (length (getitem df name))) s"
proof (cases "name \<in> set (labels df)")
  case True
  then have "getitem df name \<noteq> []" by (simp add: getitem_Nil_iff)
  then have "max 1 (length (getitem df name)) = length (getitem df name)"
    by (cases "getitem df name") auto
  with True show ?thesis
    by (simp add: setitem_def getitem_map_label map_replicate_const)
next
  case False
  then have "getitem df name = []" by (simp add: getitem_Nil_iff)
  with False show ?thesis
    by (simp add: setitem_def) (simp add: getitem_def)
qed

lemma getitem_setitem_other:
  "m \<noteq> name \<Longrightarrow> getitem (setitem df name s) m = getitem df m"
  by (simp add: setitem_def getitem_map_label) (simp add: getitem_def)

lemma getitem_setitem_scalar_other:
  "m \<noteq> name \<Longrightarrow> getitem (setitem_scalar df name v) m = getitem df m"
  by (simp add: setitem_scalar_def getitem_setitem_other)

lemma dt_year_time_cell: "dt_year (map time_cell ts) = map year_of ts"
  by (auto simp: dt_year_def time_cell_def year_of_def split: option.splits)

section \<open>Properties of the field deriver\<close>

lemma derive_year_absent:
  assumes "getitem df ''publish_time'' = []"
  shows "derive_year parse df = Inr (setitem_scalar df ''year'' NA)"
  using assms by (simp add: derive_year_def getitem_Nil_iff)

lemma derive_year_single:
  assumes "getitem df ''publish_time'' = [s]" and "parse s = Some ts"
  shows "derive_year parse df =
     Inr (setitem (setitem df ''publish_time'' (map time_cell ts)) ''year'' (map year_of ts))"
proof -
  from assms(1) have "''publish_time'' \<in> set (labels df)"
    using getitem_Nil_iff [of df "''publish_time''"] by auto
  with assms show ?thesis
    by (simp add: derive_year_def to_datetime_def Let_def dt_year_time_cell)
qed

lemma derive_year_not_datetime:
  assumes "getitem df ''publish_time'' = [s]" and "parse s = None"
  shows "derive_year parse df = Inl AttributeError"
proof -
  from assms(1) have "''publish_time'' \<in> set (labels df)"
    using getitem_Nil_iff [of df "''publish_time''"] by auto
  with assms show ?thesis
    by (simp add: derive_year_def to_datetime_def)
qed

lemma derive_year_repeated:
  assumes "1 < length (getitem df ''publish_time'')"
  shows "derive_year parse df = Inl ValueError"
proof -
  from assms obtain a b r where "getitem df ''publish_time'' = a # b # r"
    by (cases "getitem df ''publish_time''" rule: list.exhaust)
       (auto simp: neq_Nil_conv)
  moreover from this have "''publish_time'' \<in> set (labels df)"
    using getitem_Nil_iff [of df "''publish_time''"] by auto
  ultimately show ?thesis by (simp add: derive_year_def)
qed

lemma derive_year_Inr:
  assumes "derive_year parse df = Inr df'"
  shows "(getitem df ''publish_time'' = [] \<and> df' = setitem_scalar df ''year'' NA)
       \<or> (\<exists>s ts. getitem df ''publish_time'' = [s] \<and> parse s = Some ts
             \<and> df' = setitem (setitem df ''publish_time'' (map time_cell ts)) ''year''
                       (map year_of ts))"
proof (cases "getitem df ''publish_time''")
  case Nil
  with assms show ?thesis by (simp add: derive_year_absent)
next
  case (Cons s r)
  show ?thesis
  proof (cases r)
    case Nil
    with Cons have single: "getitem df ''publish_time'' = [s]" by simp
    show ?thesis
    proof (cases "parse s")
      case None
      from derive_year_not_datetime [of df s parse, OF single None] assms show ?thesis by simp
    next
      case (Some ts)
      from derive_year_single [of df s parse ts, OF single Some] assms single Some show ?thesis by simp
    qed
  next
    case (Cons b r')
    with \<open>getitem df ''publish_time'' = s # r\<close> have "1 < length (getitem df ''publish_time'')"
      by simp
    from derive_year_repeated [OF this] assms show ?thesis by simp
  qed
qed

lemma derive_year_other:
  assumes "derive_year parse df = Inr df'" and "m \<noteq> ''year''" and "m \<noteq> ''publish_time''"
  shows "getitem df' m = getitem df m"
  using derive_year_Inr [OF assms(1)] assms(2,3)
  by (auto simp: getitem_setitem_scalar_other getitem_setitem_other)

lemma derive_year_index_len:
  assumes "derive_year parse df = Inr df'"
  shows "index_len df' = index_len df"
  using derive_year_Inr [OF assms]
  by (auto simp: setitem_scalar_def index_len_setitem)

lemma clean_warnings:
  assumes "clean parse df0 = Inr (w, d)"
  shows "w = column_warnings (normalize_columns df0)"
  using assms by (auto simp: clean_def Let_def split: sum.splits)

lemma column_warnings_labels:
  "labels a = labels b \<Longrightarrow> column_warnings a = column_warnings b"
  by (simp add: column_warnings_def)

lemma column_warnings_expected:
  "''publish_time'' \<in> set (labels df) \<Longrightarrow> column_warnings df = []"
  by (auto simp: column_warnings_def expected_def filter_empty_conv)

lemma year_of_null:
  assumes "list_all2 (\<lambda>c t. c = NA \<longrightarrow> t = None) s ts"
  shows "list_all2 (\<lambda>c y. c = NA \<longrightarrow> y = NA) s (map year_of ts)"
  using assms by (induction rule: list_all2_induct) (simp_all add: year_of_def)

text \<open>
  C7, as the code has it. The derivation of the year raises in two situations: with two
  or more columns labelled \<open>publish_time\<close> (\<open>ValueError\<close>), and when \<open>to_datetime\<close>
  does not give a datetime column for the one column labelled \<open>publish_time\<close>
  (\<open>AttributeError\<close> at \<open>.dt\<close>). In every other situation it returns: every column
  labelled \<open>year\<close> afterwards (there is at least one) holds, row by row, null where
  \<open>to_datetime\<close> gives \<open>NaT\<close> and the calendar year of the parsed date where it gives
  one, so a null \<open>publish_time\<close>, for which pandas gives \<open>NaT\<close>, has a null year; and it
  is all null, of the length of the index, when there is no \<open>publish_time\<close> column. The
  warnings the batch script prints are settled by the headers alone, whatever the cells
  hold and however they parse, and there is none when a \<open>publish_time\<close> column is there.
\<close>

theorem derive_year_spec:
  "(getitem df ''publish_time'' = [] \<longrightarrow>
      (\<exists>df'. derive_year parse df = Inr df'
         \<and> getitem df' ''year'' =
             replicate (max 1 (length (getitem df ''year''))) (replicate (index_len df) NA)))
   \<and> (getitem df ''publish_time'' = [s] \<and> parse s = Some ts \<longrightarrow>
      (\<exists>df'. derive_year parse df = Inr df'
         \<and> getitem df' ''year'' =
             replicate (max 1 (length (getitem df ''year''))) (map year_of ts)
         \<and> (list_all2 (\<lambda>c t. c = NA \<longrightarrow> t = None) s ts
              \<longrightarrow> list_all2 (\<lambda>c y. c = NA \<longrightarrow> y = NA) s (map year_of ts))))
   \<and> (getitem df ''publish_time'' = [s] \<and> parse s = None \<longrightarrow>
        derive_year parse df = Inl AttributeError)
   \<and> (1 < length (getitem df ''publish_time'') \<longrightarrow> derive_year parse df = Inl ValueError)
   \<and> (clean parse a = Inr (wa, da) \<and> clean parse' b = Inr (wb, db)
        \<and> map fst (cols a) = map fst (cols b)
        \<longrightarrow> wa = wb \<and> (''publish_time'' \<in> set (labels (normalize_columns a)) \<longrightarrow> wa = []))"
proof (intro conjI impI)
  assume "getitem df ''publish_time'' = []"
  then show "\<exists>df'. derive_year parse df = Inr df'
         \<and> getitem df' ''year'' =
             replicate (max 1 (length (getitem df ''year''))) (replicate (index_len df) NA)"
    by (simp add: derive_year_absent setitem_scalar_def getitem_setitem_same)
next
  assume h: "getitem df ''publish_time'' = [s] \<and> parse s = Some ts"
  have "getitem (setitem df ''publish_time'' (map time_cell ts)) ''year'' = getitem df ''year''"
    by (simp add: getitem_setitem_other)
  then show "\<exists>df'. derive_year parse df = Inr df'
         \<and> getitem df' ''year'' =
             replicate (max 1 (length (getitem df ''year''))) (map year_of ts)
         \<and> (list_all2 (\<lambda>c t. c = NA \<longrightarrow> t = None) s ts
              \<longrightarrow> list_all2 (\<lambda>c y. c = NA \<longrightarrow> y = NA) s (map year_of ts))"
    using h year_of_null [of s ts]
    by (simp add: derive_year_single getitem_setitem_same)
next
  assume "getitem df ''publish_time'' = [s] \<and> parse s = None"
  then show "derive_year parse df = Inl AttributeError"
    by (simp add: derive_year_not_datetime)
next
  assume "1 < length (getitem df ''publish_time'')"
  then show "derive_year parse df = Inl ValueError"
    by (rule derive_year_repeated)
next
  assume h: "clean parse a = Inr (wa, da) \<and> clean parse' b = Inr (wb, db)
        \<and> map fst (cols a) = map fst (cols b)"
  then have ca: "clean parse a = Inr (wa, da)" and cb: "clean parse' b = Inr (wb, db)"
    by simp_all
  have wa: "wa = column_warnings (normalize_columns a)"
    by (rule clean_warnings [of parse a wa da, OF ca])
  have wb: "wb = column_warnings (normalize_columns b)"
    by (rule clean_warnings [of parse' b wb db, OF cb])
  from h have "map normalize_header (map fst (cols a)) = map normalize_header (map fst (cols b))"
    by simp
  then have "labels (normalize_columns a) = labels (normalize_columns b)"
    by (simp add: labels_def cols_normalize_columns o_def)
  then show "wa = wb"
    unfolding wa wb by (rule column_warnings_labels)
next
  assume h: "clean parse a = Inr (wa, da) \<and> clean parse' b = Inr (wb, db)
        \<and> map fst (cols a) = map fst (cols b)"
    and p: "''publish_time'' \<in> set (labels (normalize_columns a))"
  from h have ca: "clean parse a = Inr (wa, da)"
    by simp
  have "wa = column_warnings (normalize_columns a)"
    by (rule clean_warnings [of parse a wa da, OF ca])
  with p show "wa = []"
    by (simp add: column_warnings_expected)
qed

theorem derive_year_spec_witness:
  "\<exists>df'. derive_year example_parse
            \<lparr>index_len = 3, cols = [(''publish_time'', [Str ''2020-03-15'', NA, Str ''soon''])]\<rparr> = Inr df'
         \<and> getitem df' ''year'' = [[Num 2020, NA, NA]]
         \<and> list_all2 (\<lambda>c y. c = NA \<longrightarrow> y = NA) [Str ''2020-03-15'', NA, Str ''soon'']
              [Num 2020, NA, NA]"
proof -
  define df where "df = \<lparr>index_len = 3, cols = [(''publish_time'', [Str ''2020-03-15'', NA, Str ''soon''])]\<rparr>"
  define s where "s = [Str ''2020-03-15'', NA, Str ''soon'']"
  define ts where "ts = [Some \<lparr>ts_year = 2020, ts_month = 3, ts_day = 15\<rparr>, None, None]"
  have g: "getitem df ''publish_time'' = [s]"
    and y: "getitem df ''year'' = []"
    by (simp_all add: df_def s_def getitem_def)
  have p: "example_parse s = Some ts"
    by (simp add: example_parse_def s_def ts_def)
  have n: "list_all2 (\<lambda>c t. c = NA \<longrightarrow> t = None) s ts"
    by (simp add: s_def ts_def)
  have m: "map year_of ts = [Num 2020, NA, NA]"
    by (simp add: ts_def year_of_def)
  from derive_year_spec [where df = df and s = s and parse = example_parse and ts = ts]
  have "getitem df ''publish_time'' = [s] \<and> example_parse s = Some ts \<longrightarrow>
      (\<exists>df'. derive_year example_parse df = Inr df'
         \<and> getitem df' ''year'' =
             replicate (max 1 (length (getitem df ''year''))) (map year_of ts)
         \<and> (list_all2 (\<lambda>c t. c = NA \<longrightarrow> t = None) s ts
              \<longrightarrow> list_all2 (\<lambda>c y. c = NA \<longrightarrow> y = NA) s (map year_of ts)))"
    by (rule conjunct1 [OF conjunct2])
  from this [THEN mp, OF conjI [OF g p]] obtain df' where
    r: "derive_year example_parse df = Inr df'
         \<and> getitem df' ''year'' =
             replicate (max 1 (length (getitem df ''year''))) (map year_of ts)
         \<and> (list_all2 (\<lambda>c t. c = NA \<longrightarrow> t = None) s ts
              \<longrightarrow> list_all2 (\<lambda>c y. c = NA \<longrightarrow> y = NA) s (map year_of ts))" ..
  have 1: "derive_year example_parse df = Inr df'"
    by (rule r [THEN conjunct1])
  have 2: "getitem df' ''year'' = [[Num 2020, NA, NA]]"
    using r [THEN conjunct2, THEN conjunct1] by (simp add: y m)
  have 3: "list_all2 (\<lambda>c y. c = NA \<longrightarrow> y = NA) s [Num 2020, NA, NA]"
    using r [THEN conjunct2, THEN conjunct2, THEN mp, OF n] by (simp only: m)
  show ?thesis
  proof (rule exI [of _ df'], intro conjI)
    show "derive_year example_parse
            \<lparr>index_len = 3, cols = [(''publish_time'', [Str ''2020-03-15'', NA, Str ''soon''])]\<rparr> = Inr df'"
      using 1 unfolding df_def .
    show "getitem df' ''year'' = [[Num 2020, NA, NA]]"
      by (fact 2)
    show "list_all2 (\<lambda>c y. c = NA \<longrightarrow> y = NA) [Str ''2020-03-15'', NA, Str ''soon'']
              [Num 2020, NA, NA]"
      using 3 unfolding s_def .
  qed
qed

text \<open>
  C7, as the specification states it, fails: with two headers that normalize to
  \<open>publish_time\<close> the parsing raises \<open>ValueError\<close>, and with one \<open>publish_time\<close>
  column for which \<open>to_datetime\<close> gives no datetime column it raises \<open>AttributeError\<close>;
  the script stops in both cases.
\<close>

theorem derive_year_raises_counterexample:
  "derive_year example_parse (normalize_columns
      \<lparr>index_len = 1, cols = [(''publish_time'', [Str ''2020-03-15'']), (''Publish Time'', [NA])]\<rparr>)
     = Inl ValueError
   \<and> clean example_parse
      \<lparr>index_len = 1, cols = [(''publish_time'', [Str ''2020-03-15'']), (''Publish Time'', [NA])]\<rparr>
     = Inl ValueError
   \<and> clean example_parse
      \<lparr>index_len = 2, cols = [(''publish_time'',
          [Str ''2020-01-01T00:00:00+01:00'', Str ''2020-01-01T00:00:00+02:00''])]\<rparr>
     = Inl AttributeError"
  by code_simp

lemma getitem_fill_text_same:
  "getitem (fill_text name df) name =
     (case getitem df name of
        [] \<Rightarrow> [replicate (index_len df) (Str [])]
      | s # r \<Rightarrow> map (fillna (Str [])) (s # r))"
proof (cases "getitem df name")
  case Nil
  then have "name \<notin> set (labels df)"
    by (simp add: getitem_Nil_iff)
  with Nil show ?thesis
    by (simp add: fill_text_def setitem_scalar_def getitem_setitem_same)
next
  case (Cons s r)
  then have "name \<in> set (labels df)"
    using getitem_Nil_iff [of df name] by auto
  with Cons show ?thesis
    by (simp add: fill_text_def getitem_map_label)
qed

lemma getitem_fill_text_other:
  "m \<noteq> name \<Longrightarrow> getitem (fill_text name df) m = getitem df m"
  by (simp add: fill_text_def getitem_map_label getitem_setitem_scalar_other)

lemma index_len_fill_text: "index_len (fill_text name df) = index_len df"
  by (simp add: fill_text_def index_len_map_label setitem_scalar_def index_len_setitem)

lemma fillna_notna: "v \<noteq> NA \<Longrightarrow> list_all (\<lambda>c. c \<noteq> NA) (fillna v s)"
  by (auto simp: fillna_def list_all_iff)




lemma add_word_count_Inr:
  assumes "add_word_count src dst df = Inr d"
  shows "\<exists>s. getitem df src = [s] \<and> str_accessor_ok s \<and> d = setitem df dst (str_split_len s)"
  using assms
  by (auto simp: add_word_count_def split: list.splits if_splits)

lemma clean_Inr:
  assumes "clean parse df0 = Inr (w, d)"
  shows "\<exists>df1 a t.
           derive_year parse (normalize_columns df0) = Inr df1
         \<and> getitem (fill_text ''abstract'' df1) ''abstract'' = [a]
         \<and> getitem (fill_text ''title'' df1) ''title'' = [t]
         \<and> d = setitem (setitem (fill_text ''title'' (fill_text ''abstract'' df1))
                  ''abstract_word_count'' (str_split_len a))
                  ''title_word_count'' (str_split_len t)
         \<and> w = column_warnings (normalize_columns df0)"
proof -
  from assms obtain df1 where d1: "derive_year parse (normalize_columns df0) = Inr df1"
    by (auto simp: clean_def Let_def split: sum.splits)
  define df3 where "df3 = fill_text ''title'' (fill_text ''abstract'' df1)"
  from assms d1 obtain df4 where
    d4: "add_word_count ''abstract'' ''abstract_word_count'' df3 = Inr df4"
    and d5: "add_word_count ''title'' ''title_word_count'' df4 = Inr d"
    and w: "w = column_warnings (normalize_columns df0)"
    by (auto simp: clean_def Let_def df3_def split: sum.splits)
  from add_word_count_Inr [OF d4] obtain a where
    a: "getitem df3 ''abstract'' = [a]"
    and e4: "df4 = setitem df3 ''abstract_word_count'' (str_split_len a)"
    by blast
  from add_word_count_Inr [OF d5] obtain t where
    t: "getitem df4 ''title'' = [t]"
    and e5: "d = setitem df4 ''title_word_count'' (str_split_len t)"
    by blast
  from a have a': "getitem (fill_text ''abstract'' df1) ''abstract'' = [a]"
    by (simp add: df3_def getitem_fill_text_other)
  from t have "getitem df3 ''title'' = [t]"
    by (simp add: e4 getitem_setitem_other)
  then have "getitem (fill_text ''title'' (fill_text ''abstract'' df1)) ''title'' = [t]"
    by (simp add: df3_def)
  then have t': "getitem (fill_text ''title'' df1) ''title'' = [t]"
    by (cases "getitem df1 ''title''")
       (simp_all add: getitem_fill_text_same getitem_fill_text_other index_len_fill_text)
  from d1 a' t' e4 e5 w show ?thesis
    unfolding df3_def by blast
qed

lemma clean_columns:
  assumes "clean parse df0 = Inr (w, d)"
  shows "\<exists>a t.
           getitem d ''abstract'' = [a] \<and> getitem d ''title'' = [t]
         \<and> [a] = (case getitem (normalize_columns df0) ''abstract'' of
                     [] \<Rightarrow> [replicate (index_len df0) (Str [])]
                   | s # r \<Rightarrow> map (fillna (Str [])) (s # r))
         \<and> [t] = (case getitem (normalize_columns df0) ''title'' of
                     [] \<Rightarrow> [replicate (index_len df0) (Str [])]
                   | s # r \<Rightarrow> map (fillna (Str [])) (s # r))
         \<and> set (getitem d ''abstract_word_count'') = {str_split_len a}
         \<and> set (getitem d ''title_word_count'') = {str_split_len t}"
proof -
  from clean_Inr [OF assms] obtain df1 a t where
    d1: "derive_year parse (normalize_columns df0) = Inr df1"
    and a: "getitem (fill_text ''abstract'' df1) ''abstract'' = [a]"
    and t: "getitem (fill_text ''title'' df1) ''title'' = [t]"
    and d: "d = setitem (setitem (fill_text ''title'' (fill_text ''abstract'' df1))
                  ''abstract_word_count'' (str_split_len a))
                  ''title_word_count'' (str_split_len t)"
    by blast
  have len: "index_len df1 = index_len df0"
    using derive_year_index_len [OF d1] by (simp add: normalize_columns_def)
  have ga: "getitem df1 ''abstract'' = getitem (normalize_columns df0) ''abstract''"
    and gt: "getitem df1 ''title'' = getitem (normalize_columns df0) ''title''"
    using derive_year_other [OF d1] by simp_all
  have 1: "getitem d ''abstract'' = [a]"
    using a by (simp add: d getitem_setitem_other getitem_fill_text_other)
  have "getitem (fill_text ''title'' (fill_text ''abstract'' df1)) ''title'' = [t]"
    using t by (cases "getitem df1 ''title''")
       (simp_all add: getitem_fill_text_same getitem_fill_text_other index_len_fill_text)
  then have 2: "getitem d ''title'' = [t]"
    by (simp add: d getitem_setitem_other)
  have 3: "[a] = (case getitem (normalize_columns df0) ''abstract'' of
                     [] \<Rightarrow> [replicate (index_len df0) (Str [])]
                   | s # r \<Rightarrow> map (fillna (Str [])) (s # r))"
    using a unfolding getitem_fill_text_same ga len by simp
  have 4: "[t] = (case getitem (normalize_columns df0) ''title'' of
                     [] \<Rightarrow> [replicate (index_len df0) (Str [])]
                   | s # r \<Rightarrow> map (fillna (Str [])) (s # r))"
    using t unfolding getitem_fill_text_same gt len by simp
  have 5: "set (getitem d ''abstract_word_count'') = {str_split_len a}"
    by (simp add: d getitem_setitem_other getitem_setitem_same)
  have 6: "set (getitem d ''title_word_count'') = {str_split_len t}"
    by (simp add: d getitem_setitem_same)
  from 1 2 3 4 5 6 show ?thesis by blast
qed

lemma clean_untouched:
  assumes "clean parse df0 = Inr (w, d)"
    and "m \<noteq> ''abstract''" "m \<noteq> ''title''" "m \<noteq> ''year''" "m \<noteq> ''publish_time''"
    and "m \<noteq> ''abstract_word_count''" "m \<noteq> ''title_word_count''"
  shows "getitem d m = getitem (normalize_columns df0) m"
proof -
  from clean_Inr [OF assms(1)] obtain df1 a t where
    d1: "derive_year parse (normalize_columns df0) = Inr df1"
    and d: "d = setitem (setitem (fill_text ''title'' (fill_text ''abstract'' df1))
                  ''abstract_word_count'' (str_split_len a))
                  ''title_word_count'' (str_split_len t)"
    by blast
  have "getitem d m = getitem df1 m"
    using assms(2-) by (simp add: d getitem_setitem_other getitem_fill_text_other)
  also have "\<dots> = getitem (normalize_columns df0) m"
    using derive_year_other [OF d1, of m] assms(2-) by simp
  finally show ?thesis .
qed


lemma filled_notna:
  assumes "[a] = (case g of [] \<Rightarrow> [replicate n (Str [])] | s # r \<Rightarrow> map (fillna (Str [])) (s # r))"
  shows "list_all (\<lambda>c. c \<noteq> NA) a"
proof (cases g)
  case Nil
  with assms show ?thesis by (simp add: list_all_iff)
next
  case (Cons s r)
  with assms have "a = fillna (Str []) s" by simp
  then show ?thesis by (simp add: fillna_notna)
qed





section \<open>Text fields after normalization\<close>

lemma astype_str_notna: "list_all (\<lambda>c. c \<noteq> NA) (astype_str fmt s)"
  by (induction s) (simp_all add: astype_str_def split: cell.splits)

lemma ensure_text_Inr:
  assumes "ensure_text fmt name df = Inr d"
  shows "getitem df name \<noteq> []"
    and "d = map_label name (\<lambda>s. astype_str fmt (fillna (Str []) s)) df"
  using assms by (auto simp: ensure_text_def getitem_Nil_iff split: if_splits)

lemma ensure_all_getitem:
  assumes "ensure_all fmt names df = Inr d" and "distinct names"
  shows "getitem d m =
           (if m \<in> set names then map (\<lambda>s. astype_str fmt (fillna (Str []) s)) (getitem df m)
            else getitem df m)
         \<and> (m \<in> set names \<longrightarrow> getitem df m \<noteq> [])"
  using assms
proof (induction names arbitrary: df)
  case Nil
  then show ?case by simp
next
  case (Cons name names)
  from Cons.prems(1) obtain df' where
    e: "ensure_text fmt name df = Inr df'" and r: "ensure_all fmt names df' = Inr d"
    by (auto split: sum.splits)
  from Cons.prems(2) have dn: "distinct names" and nn: "name \<notin> set names" by simp_all
  note ih = Cons.IH [OF r dn]
  have g: "getitem df' k =
      (if k = name then map (\<lambda>s. astype_str fmt (fillna (Str []) s)) (getitem df name)
       else getitem df k)" for k
    by (simp add: ensure_text_Inr(2) [OF e] getitem_map_label)
  show ?case
  proof (cases "m = name")
    case True
    with ih nn g [of name] ensure_text_Inr(1) [OF e] show ?thesis by simp
  next
    case False
    with ih g [of m] show ?thesis by simp
  qed
qed

lemma load_df_Inr:
  assumes "load_df parse fmt df0 = Inr d"
  shows "\<exists>df1 df2. derive_year parse (normalize_columns df0) = Inr df1
           \<and> ensure_all fmt text_fields df1 = Inr df2
           \<and> add_word_count ''abstract'' ''abstract_word_count'' df2 = Inr d"
  using assms by (auto simp: load_df_def split: sum.splits)

lemma load_df_text_field:
  assumes "load_df parse fmt df0 = Inr d" and "name \<in> set text_fields"
  shows "getitem d name =
           map (\<lambda>s. astype_str fmt (fillna (Str []) s)) (getitem (normalize_columns df0) name)"
    and "getitem d name \<noteq> []"
proof -
  from load_df_Inr [OF assms(1)] obtain df1 df2 where
    d1: "derive_year parse (normalize_columns df0) = Inr df1"
    and d2: "ensure_all fmt text_fields df1 = Inr df2"
    and d3: "add_word_count ''abstract'' ''abstract_word_count'' df2 = Inr d"
    by blast
  from assms(2) have ne: "name \<noteq> ''year''" "name \<noteq> ''publish_time''"
    "name \<noteq> ''abstract_word_count''"
    by (auto simp: text_fields_def)
  have dist: "distinct text_fields" by (simp add: text_fields_def)
  from add_word_count_Inr [OF d3] obtain s where
    "d = setitem df2 ''abstract_word_count'' (str_split_len s)" by blast
  then have "getitem d name = getitem df2 name"
    using ne by (simp add: getitem_setitem_other)
  moreover from ensure_all_getitem [OF d2 dist, of name] assms(2) have
    "getitem df2 name = map (\<lambda>s. astype_str fmt (fillna (Str []) s)) (getitem df1 name)"
    and "getitem df1 name \<noteq> []"
    by simp_all
  moreover have "getitem df1 name = getitem (normalize_columns df0) name"
    using derive_year_other [OF d1, of name] ne by simp
  ultimately show "getitem d name =
           map (\<lambda>s. astype_str fmt (fillna (Str []) s)) (getitem (normalize_columns df0) name)"
    and "getitem d name \<noteq> []"
    by simp_all
qed

lemma load_df_missing_column_raises:
  "load_df example_parse example_fmt \<lparr>index_len = 1, cols = [(''title'', [Str ''t''])]\<rparr>
     = Inl AttributeError"
  by code_simp

text \<open>
  C1, as the code has it. In the cleaned table of the batch script \<open>title\<close> and
  \<open>abstract\<close> are present and hold no null: a column that was absent is a column of empty
  texts of the length of the index, a column that was present has its nulls replaced by
  the empty text; \<open>authors\<close>, \<open>journal\<close> and \<open>source_x\<close> are left as they were read,
  absent or with their nulls. In the table the viewer loads, each of the five text fields
  is the column that was read with its nulls replaced by the empty text (and every cell
  written as a text), so it holds no null.
\<close>

theorem text_fields_filled:
  "(clean parse df0 = Inr (w, d) \<longrightarrow>
      getitem d ''title'' =
        (case getitem (normalize_columns df0) ''title'' of
           [] \<Rightarrow> [replicate (index_len df0) (Str [])]
         | s # r \<Rightarrow> map (fillna (Str [])) (s # r))
    \<and> getitem d ''abstract'' =
        (case getitem (normalize_columns df0) ''abstract'' of
           [] \<Rightarrow> [replicate (index_len df0) (Str [])]
         | s # r \<Rightarrow> map (fillna (Str [])) (s # r))
    \<and> list_all (list_all (\<lambda>c. c \<noteq> NA)) (getitem d ''title'' @ getitem d ''abstract'')
    \<and> getitem d ''authors'' = getitem (normalize_columns df0) ''authors''
    \<and> getitem d ''journal'' = getitem (normalize_columns df0) ''journal''
    \<and> getitem d ''source_x'' = getitem (normalize_columns df0) ''source_x'')
  \<and> (load_df parse fmt df0 = Inr d' \<longrightarrow>
      list_all (\<lambda>name.
          getitem d' name =
            map (\<lambda>s. astype_str fmt (fillna (Str []) s)) (getitem (normalize_columns df0) name)
        \<and> getitem d' name \<noteq> []
        \<and> list_all (list_all (\<lambda>c. c \<noteq> NA)) (getitem d' name)) text_fields)"
proof (intro conjI impI)
  assume c: "clean parse df0 = Inr (w, d)"
  from clean_columns [OF c] obtain a t where
    1: "getitem d ''abstract'' = [a]" "getitem d ''title'' = [t]"
    and 2: "[a] = (case getitem (normalize_columns df0) ''abstract'' of
                     [] \<Rightarrow> [replicate (index_len df0) (Str [])]
                   | s # r \<Rightarrow> map (fillna (Str [])) (s # r))"
    and 3: "[t] = (case getitem (normalize_columns df0) ''title'' of
                     [] \<Rightarrow> [replicate (index_len df0) (Str [])]
                   | s # r \<Rightarrow> map (fillna (Str [])) (s # r))"
    by blast
  show "getitem d ''title'' =
        (case getitem (normalize_columns df0) ''title'' of
           [] \<Rightarrow> [replicate (index_len df0) (Str [])]
         | s # r \<Rightarrow> map (fillna (Str [])) (s # r))"
    using 1(2) 3 by simp
  show "getitem d ''abstract'' =
        (case getitem (normalize_columns df0) ''abstract'' of
           [] \<Rightarrow> [replicate (index_len df0) (Str [])]
         | s # r \<Rightarrow> map (fillna (Str [])) (s # r))"
    using 1(1) 2 by simp
  show "list_all (list_all (\<lambda>c. c \<noteq> NA)) (getitem d ''title'' @ getitem d ''abstract'')"
    using filled_notna [OF 2] filled_notna [OF 3] by (simp add: 1)
  show "getitem d ''authors'' = getitem (normalize_columns df0) ''authors''"
    by (rule clean_untouched [OF c]) simp_all
  show "getitem d ''journal'' = getitem (normalize_columns df0) ''journal''"
    by (rule clean_untouched [OF c]) simp_all
  show "getitem d ''source_x'' = getitem (normalize_columns df0) ''source_x''"
    by (rule clean_untouched [OF c]) simp_all
next
  assume l: "load_df parse fmt df0 = Inr d'"
  show "list_all (\<lambda>name.
          getitem d' name =
            map (\<lambda>s. astype_str fmt (fillna (Str []) s)) (getitem (normalize_columns df0) name)
        \<and> getitem d' name \<noteq> []
        \<and> list_all (list_all (\<lambda>c. c \<noteq> NA)) (getitem d' name)) text_fields"
  proof -
    have "getitem d' name =
            map (\<lambda>s. astype_str fmt (fillna (Str []) s)) (getitem (normalize_columns df0) name)
        \<and> getitem d' name \<noteq> []
        \<and> list_all (list_all (\<lambda>c. c \<noteq> NA)) (getitem d' name)"
      if n: "name \<in> set text_fields" for name
    proof (intro conjI)
      show g: "getitem d' name =
          map (\<lambda>s. astype_str fmt (fillna (Str []) s)) (getitem (normalize_columns df0) name)"
        by (rule load_df_text_field(1) [OF l n])
      show "getitem d' name \<noteq> []"
        by (rule load_df_text_field(2) [OF l n])
      show "list_all (list_all (\<lambda>c. c \<noteq> NA)) (getitem d' name)"
        using astype_str_notna [of fmt] unfolding g list_all_iff by auto
    qed
    then show ?thesis unfolding list_all_iff by blast
  qed
qed

lemma clean_example_authors:
  "clean example_parse \<lparr>index_len = 1, cols = [(''Title'', [Str ''t'']), (''Authors'', [NA])]\<rparr>
     = Inr ([], \<lparr>index_len = 1,
                 cols = [(''title'', [Str ''t'']), (''authors'', [NA]), (''year'', [NA]),
                         (''abstract'', [Str '''']), (''abstract_word_count'', [Num 0]),
                         (''title_word_count'', [Num 1])]\<rparr>)"
  by code_simp

lemma load_df_example:
  "load_df example_parse example_fmt
     \<lparr>index_len = 1, cols = [(''Title'', [NA]), (''Abstract'', [Str ''a b'']), (''Authors'', [NA]),
                            (''Journal'', [Str ''J'']), (''Source X'', [NA])]\<rparr>
     = Inr \<lparr>index_len = 1,
            cols = [(''title'', [Str '''']), (''abstract'', [Str ''a b'']), (''authors'', [Str '''']),
                    (''journal'', [Str ''J'']), (''source_x'', [Str '''']), (''year'', [NA]),
                    (''abstract_word_count'', [Num 2])]\<rparr>"
  by code_simp

theorem text_fields_filled_witness:
  "getitem \<lparr>index_len = 1,
            cols = [(''title'', [Str ''t'']), (''authors'', [NA]), (''year'', [NA]),
                    (''abstract'', [Str '''']), (''abstract_word_count'', [Num 0]),
                    (''title_word_count'', [Num 1])]\<rparr> ''abstract''
     = [[Str '''']]
   \<and> getitem \<lparr>index_len = 1,
            cols = [(''title'', [Str '''']), (''abstract'', [Str ''a b'']), (''authors'', [Str '''']),
                    (''journal'', [Str ''J'']), (''source_x'', [Str '''']), (''year'', [NA]),
                    (''abstract_word_count'', [Num 2])]\<rparr> ''authors''
       \<noteq> []"
proof -
  have n1: "getitem (normalize_columns
        \<lparr>index_len = 1, cols = [(''Title'', [Str ''t'']), (''Authors'', [NA])]\<rparr>) ''abstract'' = []"
    by code_simp
  from text_fields_filled [THEN conjunct1, THEN mp, OF clean_example_authors]
  have "getitem \<lparr>index_len = 1,
            cols = [(''title'', [Str ''t'']), (''authors'', [NA]), (''year'', [NA]),
                    (''abstract'', [Str '''']), (''abstract_word_count'', [Num 0]),
                    (''title_word_count'', [Num 1])]\<rparr> ''abstract''
      = (case getitem (normalize_columns
            \<lparr>index_len = 1, cols = [(''Title'', [Str ''t'']), (''Authors'', [NA])]\<rparr>) ''abstract'' of
           [] \<Rightarrow> [replicate (index_len
               \<lparr>index_len = 1, cols = [(''Title'', [Str ''t'']), (''Authors'', [NA])]\<rparr>) (Str [])]
         | s # r \<Rightarrow> map (fillna (Str [])) (s # r))"
    by (rule conjunct1 [OF conjunct2])
  then have 1: "getitem \<lparr>index_len = 1,
            cols = [(''title'', [Str ''t'']), (''authors'', [NA]), (''year'', [NA]),
                    (''abstract'', [Str '''']), (''abstract_word_count'', [Num 0]),
                    (''title_word_count'', [Num 1])]\<rparr> ''abstract'' = [[Str '''']]"
    unfolding n1 by simp
  have m: "''authors'' \<in> set text_fields"
    by (simp add: text_fields_def)
  from text_fields_filled [THEN conjunct2, THEN mp, OF load_df_example,
      unfolded list_all_iff, THEN bspec, OF m]
  have 2: "getitem \<lparr>index_len = 1,
            cols = [(''title'', [Str '''']), (''abstract'', [Str ''a b'']), (''authors'', [Str '''']),
                    (''journal'', [Str ''J'']), (''source_x'', [Str '''']), (''year'', [NA]),
                    (''abstract_word_count'', [Num 2])]\<rparr> ''authors'' \<noteq> []"
    by (rule conjunct1 [OF conjunct2])
  from 1 2 show ?thesis by (rule conjI)
qed

text \<open>
  C1, as the specification states it, fails for the batch script: a table with the
  headers \<open>Title\<close> and \<open>Authors\<close> and a null author comes out of the cleaning with the
  null still in \<open>authors\<close> and with no column \<open>journal\<close>.
\<close>

theorem text_fields_counterexample:
  "clean example_parse \<lparr>index_len = 1, cols = [(''Title'', [Str ''t'']), (''Authors'', [NA])]\<rparr>
     = Inr ([], \<lparr>index_len = 1,
                 cols = [(''title'', [Str ''t'']), (''authors'', [NA]), (''year'', [NA]),
                         (''abstract'', [Str '''']), (''abstract_word_count'', [Num 0]),
                         (''title_word_count'', [Num 1])]\<rparr>)
   \<and> getitem \<lparr>index_len = 1,
                 cols = [(''title'', [Str ''t'']), (''authors'', [NA]), (''year'', [NA]),
                         (''abstract'', [Str '''']), (''abstract_word_count'', [Num 0]),
                         (''title_word_count'', [Num 1])]\<rparr> ''authors'' = [[NA]]
   \<and> getitem \<lparr>index_len = 1,
                 cols = [(''title'', [Str ''t'']), (''authors'', [NA]), (''year'', [NA]),
                         (''abstract'', [Str '''']), (''abstract_word_count'', [Num 0]),
                         (''title_word_count'', [Num 1])]\<rparr> ''journal'' = []"
  by code_simp

section \<open>Properties of the sampler\<close>

lemma well_formed_take_rows: "well_formed (take_rows locs df)"
  by (simp add: well_formed_def take_rows_def list_all_iff)

lemma rows_of_take_rows:
  "rows_of (take_rows locs df) = map (\<lambda>j. map (\<lambda>kc. snd kc ! j) (cols df)) locs"
proof -
  have "rows_of (take_rows locs df)
      = map (\<lambda>i. map (\<lambda>kc. snd kc ! (locs ! i)) (cols df)) [0..<length locs]"
    by (simp add: rows_of_def take_rows_def o_def)
  also have "\<dots> = map (\<lambda>j. map (\<lambda>kc. snd kc ! j) (cols df)) (map (\<lambda>i. locs ! i) [0..<length locs])"
    by (simp add: o_def)
  also have "map (\<lambda>i. locs ! i) [0..<length locs] = locs"
    by (rule map_nth)
  finally show ?thesis .
qed

lemma rows_of_permuted:
  assumes "mset locs = mset [0..<index_len df]"
  shows "mset (rows_of (take_rows locs df)) = mset (rows_of df)"
proof -
  have "mset (rows_of (take_rows locs df))
      = image_mset (\<lambda>j. map (\<lambda>kc. snd kc ! j) (cols df)) (mset locs)"
    by (simp add: rows_of_take_rows)
  also have "\<dots> = image_mset (\<lambda>j. map (\<lambda>kc. snd kc ! j) (cols df)) (mset [0..<index_len df])"
    by (simp only: assms)
  also have "\<dots> = mset (rows_of df)"
    by (simp add: rows_of_def)
  finally show ?thesis .
qed

text \<open>
  C3. For a requested size \<open>n > 0\<close> the sampling step returns a sample; it is the rows
  at the first \<open>min n total\<close> positions of the permutation that the generator seeded
  with 42 gives for the length of the table, so it is a function of the seed and the
  input alone; it has exactly \<open>min n total\<close> rows; and when \<open>n\<close> is at least the
  number of rows the sample holds every row of the input, each as often as the input does.
  The generator's draw is a permutation of the row positions.
\<close>

theorem sample_step_spec:
  assumes "mset (permutation 42 (index_len df)) = mset [0..<index_len df]"
    and "0 < n"
  shows "\<exists>s. sample_step permutation n df = Some (Inr s)
           \<and> s = take_rows (take (min (nat n) (index_len df)) (permutation 42 (index_len df))) df
           \<and> index_len s = min (nat n) (index_len df)
           \<and> length (rows_of s) = min (nat n) (index_len df)
           \<and> well_formed s
           \<and> (int (index_len df) \<le> n \<longrightarrow> mset (rows_of s) = mset (rows_of df))"
proof -
  define total where "total = index_len df"
  define locs where "locs = take (min (nat n) total) (permutation 42 total)"
  define s where "s = take_rows locs df"
  have len: "length (permutation 42 total) = total"
    using assms(1) mset_eq_length [of "permutation 42 total" "[0..<total]"]
    by (simp add: total_def)
  have k: "nat (min n (int total)) = min (nat n) total"
    using assms(2) by (auto simp: min_def)
  have run: "sample_step permutation n df = Some (Inr s)"
    using assms(2)
    by (simp add: sample_step_def df_sample_def choice_def Let_def k s_def locs_def
        total_def [symmetric])
  have ll: "length locs = min (nat n) total"
    by (simp add: locs_def len)
  have il: "index_len s = min (nat n) total"
    by (simp add: s_def take_rows_def ll)
  have lr: "length (rows_of s) = min (nat n) total"
    by (simp add: rows_of_def il)
  have all: "mset (rows_of s) = mset (rows_of df)" if "int total \<le> n"
  proof -
    from that have "min (nat n) total = total" by simp
    then have "locs = permutation 42 total"
      by (simp add: locs_def len)
    then have "mset locs = mset [0..<index_len df]"
      using assms(1) by (simp add: total_def)
    then show ?thesis unfolding s_def by (rule rows_of_permuted)
  qed
  show ?thesis
  proof (rule exI [of _ s], intro conjI impI)
    show "sample_step permutation n df = Some (Inr s)" by (fact run)
    show "s = take_rows (take (min (nat n) (index_len df)) (permutation 42 (index_len df))) df"
      by (simp add: s_def locs_def total_def)
    show "index_len s = min (nat n) (index_len df)"
      using il by (simp add: total_def)
    show "length (rows_of s) = min (nat n) (index_len df)"
      using lr by (simp add: total_def)
    show "well_formed s"
      unfolding s_def by (rule well_formed_take_rows)
    show "mset (rows_of s) = mset (rows_of df)" if "int (index_len df) \<le> n"
      using that all by (simp add: total_def)
  qed
qed

lemma sample_step_example:
  "sample_step example_permutation 2
     \<lparr>index_len = 3, cols = [(''title'', [Str ''a'', Str ''b'', Str ''c'']),
                            (''year'', [Num 2019, NA, Num 2021])]\<rparr>
   = Some (Inr \<lparr>index_len = 2, cols = [(''title'', [Str ''c'', Str ''b'']),
                                       (''year'', [Num 2021, NA])]\<rparr>)"
  by code_simp

lemma sample_step_disabled: "sample_step permutation 0 df = None"
  by (simp add: sample_step_def)

theorem sample_step_spec_witness:
  "\<exists>s. sample_step example_permutation 5
          \<lparr>index_len = 3, cols = [(''title'', [Str ''a'', Str ''b'', Str ''c''])]\<rparr> = Some (Inr s)
       \<and> index_len s = 3
       \<and> mset (rows_of s)
           = mset (rows_of \<lparr>index_len = 3, cols = [(''title'', [Str ''a'', Str ''b'', Str ''c''])]\<rparr>)"
proof -
  define df where "df = \<lparr>index_len = 3, cols = [(''title'', [Str ''a'', Str ''b'', Str ''c''])]\<rparr>"
  have il: "index_len df = 3" by (simp add: df_def)
  have p: "mset (example_permutation 42 (index_len df)) = mset [0..<index_len df]"
    by (simp add: example_permutation_def)
  have n: "(0::int) < 5" by simp
  from sample_step_spec [of example_permutation df 5, OF p n] show ?thesis
    unfolding df_def [symmetric] by (auto simp: il)
qed

section \<open>Properties of the viewer's filters\<close>

lemma getitem_filter_rows:
  "getitem (filter_rows keep df) m
     = map (\<lambda>c. map snd (filter fst (zip keep c))) (getitem df m)"
proof -
  have "map snd (filter (\<lambda>kc. fst kc = m) (map (\<lambda>kc. (fst kc, g (snd kc))) xs))
      = map g (map snd (filter (\<lambda>kc. fst kc = m) xs))" for g :: "series \<Rightarrow> series" and xs
    by (induction xs) auto
  then show ?thesis by (simp add: getitem_def filter_rows_def)
qed

lemma set_masked: "set (map snd (filter fst (zip keep c))) \<subseteq> set c"
proof
  fix x assume "x \<in> set (map snd (filter fst (zip keep c)))"
  then obtain b where "(b, x) \<in> set (zip keep c)" by auto
  then show "x \<in> set c" by (rule set_zip_rightD)
qed

lemma those_mask:
  assumes "those (map g s) = Some keep"
  shows "list_all (\<lambda>c. g c = Some True) (map snd (filter fst (zip keep s)))"
  using assms
proof (induction s arbitrary: keep)
  case Nil
  then show ?case by simp
next
  case (Cons c s)
  from Cons.prems obtain b bs where
    b: "g c = Some b" and bs: "those (map g s) = Some bs" and keep: "keep = b # bs"
    by (auto split: option.splits)
  from Cons.IH [OF bs] b show ?case by (simp add: keep)
qed

lemma year_in_range_True:
  "year_in_range lo hi c = Some True \<longleftrightarrow> (\<exists>y. c = Num y \<and> lo \<le> y \<and> y \<le> hi)"
  by (cases c) (simp_all add: year_in_range_def)

lemma list_all_masked:
  "list_all P c \<Longrightarrow> list_all P (map snd (filter fst (zip keep c)))"
  using set_masked [of keep c] unfolding list_all_iff by blast

lemma list_all_masked_columns:
  "list_all (list_all P) xs
   \<Longrightarrow> list_all (list_all P) (map (\<lambda>c. map snd (filter fst (zip keep c))) xs)"
  by (induction xs) (simp_all add: list_all_masked)

lemma years_in_filter_rows:
  assumes "years_in lo hi df"
  shows "years_in lo hi (filter_rows keep df)"
proof -
  from assms have ne: "getitem df ''year'' \<noteq> []"
    and al: "list_all (list_all (\<lambda>c. c \<noteq> NA \<and> year_in_range lo hi c = Some True))
               (getitem df ''year'')"
    by (simp_all add: years_in_def)
  from ne list_all_masked_columns [OF al, of keep] show ?thesis
    unfolding years_in_def getitem_filter_rows by simp
qed

lemma year_filter_years_in:
  assumes "year_filter lo hi df = Inr f" and "list_ex notna_any (getitem df ''year'')"
  shows "years_in lo hi f"
proof -
  from assms(1) obtain s where s: "getitem df ''year'' = [s]"
    by (auto simp: year_filter_def series_of_def split: list.splits sum.splits)
  with assms(2) have any: "notna_any s" by simp
  from assms(1) s any obtain keep where
    k: "those (map (year_in_range lo hi) s) = Some keep" and f: "f = filter_rows keep df"
    by (auto simp: year_filter_def series_of_def split: option.splits)
  have "list_all (\<lambda>c. year_in_range lo hi c = Some True) (map snd (filter fst (zip keep s)))"
    by (rule those_mask [OF k])
  then have "list_all (\<lambda>c. c \<noteq> NA \<and> year_in_range lo hi c = Some True)
               (map snd (filter fst (zip keep s)))"
    by (auto simp: list_all_iff year_in_range_True)
  then show ?thesis
    by (simp add: years_in_def f getitem_filter_rows s)
qed

lemma source_filter_years_in:
  assumes "source_filter selected_source df = Inr f" and "years_in lo hi df"
  shows "years_in lo hi f"
  using assms
  by (auto simp: source_filter_def years_in_filter_rows split: if_splits sum.splits)

lemma title_filter_years_in:
  assumes "title_filter re_compile title_query df = Inr f" and "years_in lo hi df"
  shows "years_in lo hi f"
  using assms
  by (auto simp: title_filter_def years_in_filter_rows split: if_splits sum.splits option.splits)

text \<open>
  C10. When the filters of the viewer return a table and the loaded table has a non-null
  year, the filtered table has no null in \<open>year\<close>, whatever the year range, the source
  and the title query are: every year left is a number within the selected range.
\<close>

theorem filters_exclude_null_year:
  assumes "apply_filters re_compile year_range selected_source title_query df = Inr f"
    and "list_ex notna_any (getitem df ''year'')"
  shows "getitem f ''year'' \<noteq> []
       \<and> list_all (list_all (\<lambda>c. c \<noteq> NA)) (getitem f ''year'')
       \<and> list_all (list_all (\<lambda>c. \<exists>y. c = Num y \<and> fst year_range \<le> y \<and> y \<le> snd year_range))
           (getitem f ''year'')"
proof -
  from assms(1) obtain f1 f2 where
    1: "year_filter (fst year_range) (snd year_range) df = Inr f1"
    and 2: "source_filter selected_source f1 = Inr f2"
    and 3: "title_filter re_compile title_query f2 = Inr f"
    by (auto simp: apply_filters_def split: sum.splits)
  have "years_in (fst year_range) (snd year_range) f1"
    by (rule year_filter_years_in [OF 1 assms(2)])
  then have "years_in (fst year_range) (snd year_range) f2"
    by (rule source_filter_years_in [OF 2])
  then have "years_in (fst year_range) (snd year_range) f"
    by (rule title_filter_years_in [OF 3])
  then show ?thesis
    by (auto simp: years_in_def list_all_iff year_in_range_True)
qed

lemma apply_filters_example:
  "apply_filters example_re_compile (2018, 2023) ''All'' ''''
     \<lparr>index_len = 3, cols = [(''title'', [Str ''a'', Str ''b'', Str ''c'']),
                            (''source_x'', [Str ''PMC'', Str ''WHO'', Str ''PMC'']),
                            (''year'', [Num 2020, NA, Num 2018])]\<rparr>
   = Inr \<lparr>index_len = 2, cols = [(''title'', [Str ''a'', Str ''c'']),
                                 (''source_x'', [Str ''PMC'', Str ''PMC'']),
                                 (''year'', [Num 2020, Num 2018])]\<rparr>"
  by code_simp

lemma apply_filters_no_year_example:
  "apply_filters example_re_compile (2018, 2023) ''WHO'' ''b''
     \<lparr>index_len = 2, cols = [(''title'', [Str ''a'', Str ''bc'']),
                            (''source_x'', [Str ''PMC'', Str ''WHO'']),
                            (''year'', [NA, NA])]\<rparr>
   = Inr \<lparr>index_len = 1, cols = [(''title'', [Str ''bc'']),
                                 (''source_x'', [Str ''WHO'']),
                                 (''year'', [NA])]\<rparr>"
  by code_simp

theorem filters_exclude_null_year_witness:
  "list_all (list_all (\<lambda>c. c \<noteq> NA))
     (getitem \<lparr>index_len = 2, cols = [(''title'', [Str ''a'', Str ''c'']),
                                     (''source_x'', [Str ''PMC'', Str ''PMC'']),
                                     (''year'', [Num 2020, Num 2018])]\<rparr> ''year'')"
proof -
  have y: "list_ex notna_any
      (getitem \<lparr>index_len = 3, cols = [(''title'', [Str ''a'', Str ''b'', Str ''c'']),
                            (''source_x'', [Str ''PMC'', Str ''WHO'', Str ''PMC'']),
                            (''year'', [Num 2020, NA, Num 2018])]\<rparr> ''year'')"
    by code_simp
  from filters_exclude_null_year [OF apply_filters_example y] show ?thesis
    by (rule conjunct1 [OF conjunct2])
qed

section \<open>When the scripts return\<close>

text \<open>
  The cleaning of the batch script returns a table when none of the labels
  \<open>publish_time\<close>, \<open>abstract\<close> and \<open>title\<close> is carried by two columns,
  \<open>to_datetime\<close> gives a datetime column for the \<open>publish_time\<close> column, and \<open>.str\<close>
  accepts the filled \<open>abstract\<close> and \<open>title\<close> columns; the loading of the viewer and
  its filters return under the conditions stated below.
\<close>

lemma derive_year_returns:
  assumes "length (getitem df ''publish_time'') \<le> 1"
    and "list_all (\<lambda>s. parse s \<noteq> None) (getitem df ''publish_time'')"
  shows "\<exists>df'. derive_year parse df = Inr df'"
proof (cases "getitem df ''publish_time''")
  case Nil
  then show ?thesis by (simp add: derive_year_absent)
next
  case (Cons s r)
  with assms(1) have single: "getitem df ''publish_time'' = [s]" by simp
  with assms(2) obtain ts where p: "parse s = Some ts" by auto
  show ?thesis
    by (simp add: derive_year_single [of df s parse ts, OF single p])
qed

lemma str_accessor_ok_texts:
  assumes "list_all (\<lambda>c. \<exists>x. c = Str x) s"
  shows "str_accessor_ok s"
proof (cases "filter (\<lambda>c. c \<noteq> NA) s")
  case Nil
  then show ?thesis by (simp add: str_accessor_ok_def)
next
  case (Cons c r)
  then have "c \<in> set (filter (\<lambda>c. c \<noteq> NA) s)" by simp
  then have "c \<in> set s" by simp
  with assms obtain x where "c = Str x"
    unfolding list_all_iff by blast
  with Cons show ?thesis
    by (simp add: str_accessor_ok_def is_number_def is_time_def)
qed

lemma fill_text_accessor:
  assumes "length (getitem df name) \<le> 1"
    and "list_all (\<lambda>s. str_accessor_ok (fillna (Str []) s)) (getitem df name)"
  shows "\<exists>a. getitem (fill_text name df) name = [a] \<and> str_accessor_ok a"
proof (cases "getitem df name")
  case Nil
  have "str_accessor_ok (replicate (index_len df) (Str []))"
    by (rule str_accessor_ok_texts) (simp add: list_all_iff)
  with Nil show ?thesis
    by (simp add: getitem_fill_text_same)
next
  case (Cons s r)
  with assms(1) have "getitem df name = [s]" by simp
  with assms(2) show ?thesis
    by (simp add: getitem_fill_text_same)
qed

lemma clean_returns:
  assumes "length (getitem (normalize_columns df0) ''publish_time'') \<le> 1"
    and "list_all (\<lambda>s. parse s \<noteq> None) (getitem (normalize_columns df0) ''publish_time'')"
    and "length (getitem (normalize_columns df0) ''abstract'') \<le> 1"
    and "list_all (\<lambda>s. str_accessor_ok (fillna (Str []) s))
           (getitem (normalize_columns df0) ''abstract'')"
    and "length (getitem (normalize_columns df0) ''title'') \<le> 1"
    and "list_all (\<lambda>s. str_accessor_ok (fillna (Str []) s))
           (getitem (normalize_columns df0) ''title'')"
  shows "\<exists>w d. clean parse df0 = Inr (w, d)"
proof -
  from derive_year_returns [of "normalize_columns df0" parse, OF assms(1,2)] obtain df1 where
    d1: "derive_year parse (normalize_columns df0) = Inr df1" by blast
  define df2 where "df2 = fill_text ''abstract'' df1"
  define df3 where "df3 = fill_text ''title'' df2"
  have ga: "getitem df1 ''abstract'' = getitem (normalize_columns df0) ''abstract''"
    using derive_year_other [OF d1] by simp
  from fill_text_accessor [of df1 "''abstract''"] assms(3,4) obtain a where
    "getitem df2 ''abstract'' = [a]" and oa: "str_accessor_ok a"
    unfolding df2_def ga by blast
  then have a: "getitem df3 ''abstract'' = [a]"
    by (simp add: df3_def getitem_fill_text_other)
  have gt: "getitem df2 ''title'' = getitem (normalize_columns df0) ''title''"
    using derive_year_other [OF d1] by (simp add: df2_def getitem_fill_text_other)
  from fill_text_accessor [of df2 "''title''"] assms(5,6) obtain t where
    t: "getitem df3 ''title'' = [t]" and ot: "str_accessor_ok t"
    unfolding df3_def gt by blast
  have t': "getitem (setitem df3 ''abstract_word_count'' (str_split_len a)) ''title'' = [t]"
    using t by (simp add: getitem_setitem_other)
  have 4: "add_word_count ''abstract'' ''abstract_word_count'' df3
             = Inr (setitem df3 ''abstract_word_count'' (str_split_len a))"
    using a oa by (simp add: add_word_count_def)
  have 5: "add_word_count ''title'' ''title_word_count''
               (setitem df3 ''abstract_word_count'' (str_split_len a))
             = Inr (setitem (setitem df3 ''abstract_word_count'' (str_split_len a))
                      ''title_word_count'' (str_split_len t))"
    using t' ot by (simp add: add_word_count_def)
  show ?thesis
    using d1 4 5
    by (simp add: clean_def Let_def df3_def [symmetric] df2_def [symmetric])
qed

lemma clean_raises:
  assumes "1 < length (getitem (normalize_columns df0) ''publish_time'')"
  shows "clean parse df0 = Inl ValueError"
  using derive_year_repeated [OF assms] by (simp add: clean_def Let_def)

lemma ensure_all_returns:
  assumes "set names \<subseteq> set (labels df)"
  shows "\<exists>d. ensure_all fmt names df = Inr d"
  using assms
proof (induction names arbitrary: df)
  case Nil
  then show ?case by simp
next
  case (Cons name names)
  define df' where "df' = map_label name (\<lambda>s. astype_str fmt (fillna (Str []) s)) df"
  from Cons.prems have e: "ensure_text fmt name df = Inr df'"
    by (simp add: ensure_text_def df'_def)
  from Cons.prems have "set names \<subseteq> set (labels df')"
    by (simp add: df'_def labels_map_label)
  from Cons.IH [OF this] e show ?case by simp
qed

lemma year_mask_defined:
  assumes "list_all (\<lambda>c. c = NA \<or> (\<exists>y. c = Num y)) s"
  shows "\<exists>keep. those (map (year_in_range lo hi) s) = Some keep"
  using assms by (induction s) (auto simp: year_in_range_def)

lemma length_getitem_filter_rows:
  "length (getitem (filter_rows keep df) m) = length (getitem df m)"
  by (simp add: getitem_filter_rows)

lemma series_of_single:
  "length (getitem df name) = 1 \<Longrightarrow> \<exists>s. series_of df name e = Inr s"
  by (cases "getitem df name") (auto simp: series_of_def split: list.splits)

lemma year_filter_returns:
  assumes "getitem df ''year'' = [s]" and "list_all (\<lambda>c. c = NA \<or> (\<exists>y. c = Num y)) s"
  shows "\<exists>f. year_filter lo hi df = Inr f \<and> (\<forall>m. length (getitem f m) = length (getitem df m))"
proof -
  from year_mask_defined [OF assms(2)] obtain keep where
    "those (map (year_in_range lo hi) s) = Some keep" by blast
  with assms(1) show ?thesis
    by (auto simp: year_filter_def series_of_def length_getitem_filter_rows)
qed

lemma source_filter_returns:
  assumes "length (getitem df ''source_x'') = 1"
  shows "\<exists>f. source_filter selected_source df = Inr f
           \<and> (\<forall>m. length (getitem f m) = length (getitem df m))"
proof -
  from series_of_single [OF assms] obtain s where
    "series_of df ''source_x'' ValueError = Inr s" by blast
  then show ?thesis
    by (auto simp: source_filter_def length_getitem_filter_rows)
qed

lemma title_filter_returns:
  assumes "length (getitem df ''title'') = 1" and "re_compile title_query = Some found"
  shows "\<exists>f. title_filter re_compile title_query df = Inr f"
proof -
  from series_of_single [OF assms(1)] obtain s where
    "series_of df ''title'' AttributeError = Inr s" by blast
  with assms(2) show ?thesis
    by (auto simp: title_filter_def)
qed

lemma apply_filters_returns:
  assumes "getitem df ''year'' = [s]" and "list_all (\<lambda>c. c = NA \<or> (\<exists>y. c = Num y)) s"
    and "length (getitem df ''source_x'') = 1" and "length (getitem df ''title'') = 1"
    and "re_compile title_query = Some found"
  shows "\<exists>f. apply_filters re_compile year_range selected_source title_query df = Inr f"
proof -
  from year_filter_returns [OF assms(1,2)] obtain f1 where
    1: "year_filter (fst year_range) (snd year_range) df = Inr f1"
    and l1: "\<forall>m. length (getitem f1 m) = length (getitem df m)"
    by blast
  from l1 assms(3) have "length (getitem f1 ''source_x'') = 1" by simp
  from source_filter_returns [OF this] obtain f2 where
    2: "source_filter selected_source f1 = Inr f2"
    and l2: "\<forall>m. length (getitem f2 m) = length (getitem f1 m)"
    by blast
  from l1 l2 assms(4) have "length (getitem f2 ''title'') = 1" by simp
  from title_filter_returns [of f2 re_compile title_query found, OF this assms(5)] obtain f where
    "title_filter re_compile title_query f2 = Inr f" by blast
  with 1 2 show ?thesis by (auto simp: apply_filters_def)
qed

lemma astype_str_texts: "list_all (\<lambda>c. \<exists>x. c = Str x) (astype_str fmt s)"
  by (induction s) (simp_all add: astype_str_def split: cell.splits)

lemma load_df_returns:
  assumes "length (getitem (normalize_columns df0) ''publish_time'') \<le> 1"
    and "list_all (\<lambda>s. parse s \<noteq> None) (getitem (normalize_columns df0) ''publish_time'')"
    and "set text_fields \<subseteq> set (labels (normalize_columns df0))"
    and "length (getitem (normalize_columns df0) ''abstract'') = 1"
  shows "\<exists>d. load_df parse fmt df0 = Inr d"
proof -
  from derive_year_returns [of "normalize_columns df0" parse, OF assms(1,2)] obtain df1 where
    d1: "derive_year parse (normalize_columns df0) = Inr df1" by blast
  have same: "getitem df1 name = getitem (normalize_columns df0) name"
    if "name \<in> set text_fields" for name
    using that derive_year_other [OF d1, of name] by (auto simp: text_fields_def)
  have "set text_fields \<subseteq> set (labels df1)"
  proof
    fix name assume n: "name \<in> set text_fields"
    with assms(3) have "name \<in> set (labels (normalize_columns df0))"
      by auto
    then have "getitem (normalize_columns df0) name \<noteq> []"
      using getitem_Nil_iff by blast
    then have "getitem df1 name \<noteq> []"
      by (simp add: same [OF n])
    then show "name \<in> set (labels df1)"
      using getitem_Nil_iff by blast
  qed
  from ensure_all_returns [OF this] obtain df2 where
    d2: "ensure_all fmt text_fields df1 = Inr df2" by blast
  have dist: "distinct text_fields" and ab: "''abstract'' \<in> set text_fields"
    by (simp_all add: text_fields_def)
  from assms(4) obtain s where s: "getitem (normalize_columns df0) ''abstract'' = [s]"
    by (cases "getitem (normalize_columns df0) ''abstract''") auto
  from ensure_all_getitem [OF d2 dist, of "''abstract''"] ab same [OF ab] s
  have a: "getitem df2 ''abstract'' = [astype_str fmt (fillna (Str []) s)]" by simp
  have "str_accessor_ok (astype_str fmt (fillna (Str []) s))"
    by (rule str_accessor_ok_texts) (rule astype_str_texts)
  with d1 d2 a show ?thesis
    by (simp add: load_df_def add_word_count_def)
qed
end
